theory Spec2Isabelle
  imports Main "HOL-Library.Multiset" "HOL-Library.Sublist"
begin

section \<open>LoadFlare: a concurrent curl driver\<close>

text \<open>
  The repository holds two scripts. \<^verbatim>\<open>load_flare.py\<close> replays one curl command
  \<open>n\<close> times on a thread pool; \<^verbatim>\<open>multi_load_flare.py\<close> does the same for several
  command templates, each with its own repeat count. Both classify every finished request
  into one of four counters and print a summary.

  What lies outside the scripts is a parameter of the model:
  \<^item> \<open>shlex_split\<close> stands for \<^verbatim>\<open>shlex.split\<close> (\<open>None\<close> is its \<^verbatim>\<open>ValueError\<close>);
  \<^item> \<open>py_int\<close> stands for \<^verbatim>\<open>int(str)\<close> (\<open>None\<close> is its \<^verbatim>\<open>ValueError\<close>);
  \<^item> \<open>run\<close> stands for \<^verbatim>\<open>subprocess.run\<close>: given the number of the request and the
    argument vector it answers with a finished process or raises;
  \<^item> \<open>as_completed\<close> stands for the order in which the pool hands the futures back.
  Console output is kept only where a property speaks of it (the messages of an early exit and
  the warnings of the template scanner). Wall-clock times and durations are left out.
\<close>

subsection \<open>Data\<close>

datatype py_exn =
    FileNotFoundError
  | ValueError string
  | IndexError
  | OtherException string

record completed_process =
  returncode :: int
  stdout :: string
  stderr :: string

text \<open>The value of \<^verbatim>\<open>future.result()\<close>: the exception the call raised, or the pair
  \<^verbatim>\<open>(return_code, http_status_code)\<close> of the tuple that \<^verbatim>\<open>execute_curl\<close> returns.\<close>

type_synonym future = "py_exn + (int \<times> int option)"

type_synonym subprocess_run = "int \<Rightarrow> string list \<Rightarrow> py_exn + completed_process"

text \<open>One entry per call of \<^verbatim>\<open>subprocess.run\<close>: the request number and the argument vector.\<close>

type_synonym invocation = "int \<times> string list"

record counters =
  success_count :: nat
  client_error_count :: nat
  server_error_count :: nat
  other_failure_count :: nat

record summary =
  total_requests :: int
  tally :: counters

datatype exit_message =
    MustStartWithCurl
  | ErrorParsingCommand
  | NoValidCommands

datatype outcome =
    EarlyExit exit_message
  | Uncaught py_exn
  | FinalSummary summary

definition no_counts :: counters where
  "no_counts = \<lparr>success_count = 0, client_error_count = 0,
                 server_error_count = 0, other_failure_count = 0\<rparr>"

definition counted :: "counters \<Rightarrow> nat" where
  "counted k = success_count k + client_error_count k
             + server_error_count k + other_failure_count k"

subsection \<open>Reading the status code from the captured output\<close>

text \<open>The captured output is taken to be ASCII text.\<close>

definition newline :: char where
  "newline = CHR 0x0A"

definition py_isspace :: "char \<Rightarrow> bool" where
  "py_isspace c = (of_char c \<in> {9, 10, 11, 12, 13, 28, 29, 30, 31, 32 :: nat})"

definition py_strip :: "string \<Rightarrow> string" where
  "py_strip s = rev (dropWhile py_isspace (rev (dropWhile py_isspace s)))"

fun split_lines :: "string \<Rightarrow> string list" where
  "split_lines [] = [[]]"
| "split_lines (c # cs) =
     (if c = newline then [] # split_lines cs
      else (case split_lines cs of
              [] \<Rightarrow> [[c]]
            | l # ls \<Rightarrow> (c # l) # ls))"

definition is_digit :: "char \<Rightarrow> bool" where
  "is_digit c = (48 \<le> (of_char c :: nat) \<and> (of_char c :: nat) \<le> 57)"

definition digits_value :: "string \<Rightarrow> int" where
  "digits_value ds = foldl (\<lambda>a c. 10 * a + (of_char c - 48)) 0 ds"

definition all_digits :: "string \<Rightarrow> bool" where
  "all_digits s = (s \<noteq> [] \<and> list_all is_digit s)"

text \<open>\<^verbatim>\<open>load_flare.py\<close>, lines 45-59: the last line of the stripped output, when it matches
  \<^verbatim>\<open>\d+\<close> as a whole, is handed to \<^verbatim>\<open>int\<close>. Where \<^verbatim>\<open>int\<close> refuses the digits (recent
  interpreters do so beyond 4300 of them) its \<^verbatim>\<open>ValueError\<close> is raised inside the \<^verbatim>\<open>try\<close> block
  of \<^verbatim>\<open>execute_curl\<close>.\<close>

definition extract_status_code ::
  "(string \<Rightarrow> int option) \<Rightarrow> string \<Rightarrow> py_exn + int option" where
  "extract_status_code py_int out =
     (let output_lines = split_lines (py_strip out) in
      if output_lines \<noteq> [] then
        (if all_digits (last output_lines) then
           (case py_int (last output_lines) of
              None \<Rightarrow> Inl (ValueError ''int'')
            | Some code \<Rightarrow> Inr (Some code))
         else Inr None)
      else Inr None)"

text \<open>\<^verbatim>\<open>multi_load_flare.py\<close>, lines 73-81: \<^verbatim>\<open>re.search(r'(\d{3})\n?$', ...)\<close> on the stripped
  output. The stripped text has no trailing newline, so the pattern matches exactly when its last
  three characters are digits; \<^verbatim>\<open>int\<close> of three digits is their decimal value.\<close>

definition multi_extract_status_code :: "string \<Rightarrow> int option" where
  "multi_extract_status_code out =
     (let actual_stdout = py_strip out;
          tail3 = drop (length actual_stdout - 3) actual_stdout in
      if 3 \<le> length actual_stdout \<and> list_all is_digit tail3
      then Some (digits_value tail3) else None)"

subsection \<open>\<^verbatim>\<open>load_flare.py\<close>\<close>

definition write_out_format :: string where
  "write_out_format = ''%{http_code}'' @ [newline]"

text \<open>\<^verbatim>\<open>execute_curl\<close>: the future's value together with the calls of \<^verbatim>\<open>subprocess.run\<close>
  it made. \<^verbatim>\<open>command_args[0]\<close> on an empty list raises before the \<^verbatim>\<open>try\<close> block. Inside the
  block every exception, of \<^verbatim>\<open>subprocess.run\<close> or of reading the status code, ends in one of the
  two handlers, and both return \<^verbatim>\<open>(-1, None, duration)\<close>.\<close>

definition execute_curl ::
  "(string \<Rightarrow> int option) \<Rightarrow> subprocess_run \<Rightarrow> string list \<Rightarrow> int \<Rightarrow>
   future \<times> invocation list" where
  "execute_curl py_int run command_args request_num =
     (case command_args of
        [] \<Rightarrow> (Inl IndexError, [])
      | c # rest \<Rightarrow>
          (let modified_command_args = [c, ''-w'', write_out_format] @ rest in
           (case run request_num modified_command_args of
              Inr process \<Rightarrow>
                (case extract_status_code py_int (stdout process) of
                   Inr http_status_code \<Rightarrow> Inr (returncode process, http_status_code)
                 | Inl e \<Rightarrow> Inr (- 1, None))
            | Inl FileNotFoundError \<Rightarrow> Inr (- 1, None)
            | Inl e \<Rightarrow> Inr (- 1, None),
            [(request_num, modified_command_args)])))"

text \<open>The body of the \<^verbatim>\<open>for future in as_completed(futures)\<close> loop, lines 179-194.\<close>

definition count_future :: "future \<Rightarrow> counters \<Rightarrow> counters" where
  "count_future fut k =
     (case fut of
        Inl e \<Rightarrow> k\<lparr>other_failure_count := other_failure_count k + 1\<rparr>
      | Inr (return_code, http_status_code) \<Rightarrow>
          (if return_code = 0 \<and> http_status_code \<noteq> None then
             (let code = the http_status_code in
              if 200 \<le> code \<and> code < 400 then
                k\<lparr>success_count := success_count k + 1\<rparr>
              else if 400 \<le> code \<and> code < 500 then
                k\<lparr>client_error_count := client_error_count k + 1\<rparr>
              else if 500 \<le> code \<and> code < 600 then
                k\<lparr>server_error_count := server_error_count k + 1\<rparr>
              else k\<lparr>other_failure_count := other_failure_count k + 1\<rparr>)
           else k\<lparr>other_failure_count := other_failure_count k + 1\<rparr>))"

text \<open>\<^verbatim>\<open>ThreadPoolExecutor(max_workers=n)\<close> raises \<^verbatim>\<open>ValueError\<close> for \<open>n \<le> 0\<close>; nothing in
  \<^verbatim>\<open>main\<close> catches it.\<close>

definition pool_error :: py_exn where
  "pool_error = ValueError ''max_workers must be greater than 0''"

definition load_flare_main ::
  "(string \<Rightarrow> string list option) \<Rightarrow> (string \<Rightarrow> int option) \<Rightarrow> subprocess_run \<Rightarrow>
   (future list \<Rightarrow> future list) \<Rightarrow> string \<Rightarrow> int \<Rightarrow> int \<Rightarrow> outcome \<times> invocation list" where
  "load_flare_main shlex_split py_int run as_completed curl_command requests concurrency =
     (case shlex_split curl_command of
        None \<Rightarrow> (EarlyExit ErrorParsingCommand, [])
      | Some command_args \<Rightarrow>
          if command_args = [] \<or> hd command_args \<noteq> ''curl''
          then (EarlyExit MustStartWithCurl, [])
          else if concurrency \<le> 0 then (Uncaught pool_error, [])
          else
            (let submitted = map (execute_curl py_int run command_args) [1..requests];
                 futures = map fst submitted;
                 k = fold count_future (as_completed futures) no_counts
             in (FinalSummary \<lparr>total_requests = requests, tally = k\<rparr>,
                 concat (map snd submitted))))"

subsection \<open>\<^verbatim>\<open>multi_load_flare.py\<close>\<close>

text \<open>The loop of lines 49-57 with its flag \<^verbatim>\<open>skip_next\<close>; the third argument is
  \<^verbatim>\<open>modified_command_args\<close> as built so far.\<close>

fun append_rest :: "bool \<Rightarrow> string list \<Rightarrow> string list \<Rightarrow> string list" where
  "append_rest skip_next [] modified = modified"
| "append_rest skip_next (arg # args) modified =
     (if skip_next then append_rest False args modified
      else if arg = ''-w'' \<or> arg = ''--write-out'' then append_rest True args modified
      else append_rest False args (modified @ [arg]))"

text \<open>Lines 36-57: the argument vector handed to \<^verbatim>\<open>subprocess.run\<close>.\<close>

definition multi_modified_command_args :: "string list \<Rightarrow> py_exn + string list" where
  "multi_modified_command_args command_args =
     (case command_args of
        [] \<Rightarrow> Inl IndexError
      | c # rest \<Rightarrow>
          (let m0 = [c];
               m1 = (if ''-s'' \<notin> set command_args \<and> ''--silent'' \<notin> set command_args
                     then m0 @ [''-s''] else m0);
               m2 = (if ''-L'' \<notin> set command_args \<and> ''--location'' \<notin> set command_args
                     then m1 @ [''-L''] else m1);
               m3 = m2 @ [''-w'', write_out_format]
           in Inr (append_rest False rest m3)))"

definition multi_execute_curl ::
  "subprocess_run \<Rightarrow> string list \<Rightarrow> int \<Rightarrow> string \<Rightarrow> future \<times> invocation list" where
  "multi_execute_curl run command_args request_num original_curl_string =
     (case multi_modified_command_args command_args of
        Inl e \<Rightarrow> (Inl e, [])
      | Inr modified_command_args \<Rightarrow>
          (case run request_num modified_command_args of
             Inr process \<Rightarrow>
               Inr (returncode process, multi_extract_status_code (stdout process))
           | Inl FileNotFoundError \<Rightarrow> Inr (- 1, None)
           | Inl e \<Rightarrow> Inr (- 1, None),
           [(request_num, modified_command_args)]))"

text \<open>The body of the collecting loop, lines 270-287.\<close>

definition multi_count_future :: "future \<Rightarrow> counters \<Rightarrow> counters" where
  "multi_count_future fut k =
     (case fut of
        Inl e \<Rightarrow> k\<lparr>other_failure_count := other_failure_count k + 1\<rparr>
      | Inr (return_code, http_status_code) \<Rightarrow>
          (if http_status_code \<noteq> None then
             (let code = the http_status_code in
              if 200 \<le> code \<and> code < 400 then
                k\<lparr>success_count := success_count k + 1\<rparr>
              else if 400 \<le> code \<and> code < 500 then
                k\<lparr>client_error_count := client_error_count k + 1\<rparr>
              else if 500 \<le> code \<and> code < 600 then
                k\<lparr>server_error_count := server_error_count k + 1\<rparr>
              else k\<lparr>other_failure_count := other_failure_count k + 1\<rparr>)
           else if return_code = 0 then
             k\<lparr>other_failure_count := other_failure_count k + 1\<rparr>
           else k\<lparr>other_failure_count := other_failure_count k + 1\<rparr>))"

datatype warning =
    InvalidNumber string
  | MissingValue string
  | ConcurrencyIgnored string
  | SkippedNotCurl
  | SkippedNoArguments
  | SkippedParseError

definition starts_with_dash :: "string \<Rightarrow> bool" where
  "starts_with_dash s = (case s of [] \<Rightarrow> False | c # _ \<Rightarrow> c = CHR ''-'')"

text \<open>The \<^verbatim>\<open>while i < len(temp_parsed_args)\<close> loop of lines 203-223. The list argument is
  \<^verbatim>\<open>temp_parsed_args[i:]\<close>; the triple is \<^verbatim>\<open>per_cmd_requests\<close>, \<^verbatim>\<open>final_curl_args\<close> and the
  warnings printed so far.\<close>

fun scan_args ::
  "(string \<Rightarrow> int option) \<Rightarrow> string list \<Rightarrow> int \<times> string list \<times> warning list \<Rightarrow>
   int \<times> string list \<times> warning list" where
  "scan_args py_int [] st = st"
| "scan_args py_int (arg # rest) (per_cmd_requests, final_curl_args, warnings) =
     (if arg = ''-n'' \<or> arg = ''--requests'' then
        (case rest of
           [] \<Rightarrow> scan_args py_int rest
                   (per_cmd_requests, final_curl_args, warnings @ [MissingValue arg])
         | v # rest' \<Rightarrow>
             (case py_int v of
                Some n \<Rightarrow> scan_args py_int rest' (n, final_curl_args, warnings)
              | None \<Rightarrow> scan_args py_int rest
                          (per_cmd_requests, final_curl_args, warnings @ [InvalidNumber arg])))
      else if arg = ''-c'' \<or> arg = ''--concurrency'' then
        (case rest of
           [] \<Rightarrow> scan_args py_int rest
                   (per_cmd_requests, final_curl_args, warnings @ [ConcurrencyIgnored arg])
         | v # rest' \<Rightarrow>
             (if \<not> starts_with_dash v
              then scan_args py_int rest'
                     (per_cmd_requests, final_curl_args, warnings @ [ConcurrencyIgnored arg])
              else scan_args py_int rest
                     (per_cmd_requests, final_curl_args, warnings @ [ConcurrencyIgnored arg])))
      else scan_args py_int rest (per_cmd_requests, final_curl_args @ [arg], warnings))"

text \<open>One round of the \<^verbatim>\<open>for original_cmd_str in args.curl_commands\<close> loop, lines 191-235:
  the tasks the template adds to \<^verbatim>\<open>all_tasks\<close> and what it prints.\<close>

definition template_tasks ::
  "(string \<Rightarrow> string list option) \<Rightarrow> (string \<Rightarrow> int option) \<Rightarrow> int \<Rightarrow> string \<Rightarrow>
   (string list \<times> string) list \<times> warning list" where
  "template_tasks shlex_split py_int global_requests_count original_cmd_str =
     (case shlex_split original_cmd_str of
        None \<Rightarrow> ([], [SkippedParseError])
      | Some temp_parsed_args \<Rightarrow>
          if temp_parsed_args = [] \<or> hd temp_parsed_args \<noteq> ''curl''
          then ([], [SkippedNotCurl])
          else
            (case scan_args py_int temp_parsed_args (global_requests_count, [], []) of
               (per_cmd_requests, final_curl_args, warnings) \<Rightarrow>
                 if final_curl_args = [] then ([], warnings @ [SkippedNoArguments])
                 else (replicate (nat per_cmd_requests) (final_curl_args, original_cmd_str),
                       warnings)))"

definition all_tasks ::
  "(string \<Rightarrow> string list option) \<Rightarrow> (string \<Rightarrow> int option) \<Rightarrow> int \<Rightarrow> string list \<Rightarrow>
   (string list \<times> string) list" where
  "all_tasks shlex_split py_int global_requests_count curl_commands =
     concat (map (\<lambda>c. fst (template_tasks shlex_split py_int global_requests_count c))
                 curl_commands)"

text \<open>\<^verbatim>\<open>enumerate(xs, start=i)\<close>.\<close>

primrec enumerate_from :: "int \<Rightarrow> 'a list \<Rightarrow> (int \<times> 'a) list" where
  "enumerate_from i [] = []"
| "enumerate_from i (x # xs) = (i, x) # enumerate_from (i + 1) xs"

text \<open>The third component is the \<^verbatim>\<open>max_workers\<close> of the pool, once one has been built.\<close>

definition multi_load_flare_main ::
  "(string \<Rightarrow> string list option) \<Rightarrow> (string \<Rightarrow> int option) \<Rightarrow> subprocess_run \<Rightarrow>
   (future list \<Rightarrow> future list) \<Rightarrow> string list \<Rightarrow> int \<Rightarrow> int \<Rightarrow>
   outcome \<times> invocation list \<times> int option" where
  "multi_load_flare_main shlex_split py_int run as_completed curl_commands requests concurrency =
     (let tasks = all_tasks shlex_split py_int requests curl_commands in
      if tasks = [] then (EarlyExit NoValidCommands, [], None)
      else if concurrency \<le> 0 then (Uncaught pool_error, [], None)
      else
        (let submitted =
               map (\<lambda>(i, (command_args, original_cmd_str)).
                      multi_execute_curl run command_args i original_cmd_str)
                   (enumerate_from 1 tasks);
             futures = map fst submitted;
             k = fold multi_count_future (as_completed futures) no_counts
         in (FinalSummary \<lparr>total_requests = int (length tasks), tally = k\<rparr>,
             concat (map snd submitted), Some concurrency)))"

subsection \<open>The vocabulary of the specification\<close>

text \<open>The four outcome classes of the specification. To classify a request as \<open>cls\<close> is to
  add one to the counter of \<open>cls\<close> and to leave the three others as they are.\<close>

datatype outcome_class = Success | ClientError | ServerError | OtherFailure

definition record_class :: "outcome_class \<Rightarrow> counters \<Rightarrow> counters" where
  "record_class cls k =
     (case cls of
        Success \<Rightarrow> k\<lparr>success_count := success_count k + 1\<rparr>
      | ClientError \<Rightarrow> k\<lparr>client_error_count := client_error_count k + 1\<rparr>
      | ServerError \<Rightarrow> k\<lparr>server_error_count := server_error_count k + 1\<rparr>
      | OtherFailure \<Rightarrow> k\<lparr>other_failure_count := other_failure_count k + 1\<rparr>)"

text \<open>A run that ends on a complaint about its configuration: a template or task list the
  script refuses, or the \<^verbatim>\<open>ValueError\<close> of the pool constructor.\<close>

definition configuration_failure :: "outcome \<Rightarrow> bool" where
  "configuration_failure out =
     (case out of
        EarlyExit m \<Rightarrow> True
      | Uncaught e \<Rightarrow> (case e of ValueError msg \<Rightarrow> True | _ \<Rightarrow> False)
      | FinalSummary s \<Rightarrow> False)"

text \<open>In the words of the specification: every \<^verbatim>\<open>-w\<close> or \<^verbatim>\<open>--write-out\<close> flag is removed
  together with the argument that follows it.\<close>

fun without_write_out :: "string list \<Rightarrow> string list" where
  "without_write_out [] = []"
| "without_write_out (arg # args) =
     (if arg = ''-w'' \<or> arg = ''--write-out'' then without_write_out (drop 1 args)
      else arg # without_write_out args)"

subsection \<open>Stand-ins for the outside world\<close>

text \<open>Concrete instances of the parameters, for running the model: a lexer for templates
  without quotes or escapes, a reader of plain decimal numerals, a curl that always gives the same
  answer, a machine without curl and a machine where curl turns up after the first request.\<close>

fun words_from :: "string \<Rightarrow> string \<Rightarrow> string list" where
  "words_from w [] = (if w = [] then [] else [w])"
| "words_from w (c # cs) =
     (if c = CHR '' '' then (if w = [] then words_from [] cs else w # words_from [] cs)
      else words_from (w @ [c]) cs)"

definition words :: "string \<Rightarrow> string list option" where
  "words s = Some (words_from [] s)"

definition decimal :: "string \<Rightarrow> int option" where
  "decimal s =
     (case s of
        [] \<Rightarrow> None
      | c # cs \<Rightarrow>
          if c = CHR ''-'' then (if all_digits cs then Some (- digits_value cs) else None)
          else if all_digits s then Some (digits_value s) else None)"

definition curl_answers :: "int \<Rightarrow> string \<Rightarrow> subprocess_run" where
  "curl_answers rc out i argv = Inr \<lparr>returncode = rc, stdout = out, stderr = []\<rparr>"

definition curl_missing :: subprocess_run where
  "curl_missing i argv = Inl FileNotFoundError"

text \<open>The first request finds no curl; every later one is answered with the status 200.\<close>

definition curl_missing_at_first :: subprocess_run where
  "curl_missing_at_first i argv =
     (if i = 1 then Inl FileNotFoundError
      else Inr \<lparr>returncode = 0, stdout = ''200'', stderr = []\<rparr>)"

section \<open>Properties\<close>

subsection \<open>Counting a finished request\<close>

lemma counted_record_class: "counted (record_class cls k) = counted k + 1"
  by (cases cls) (simp_all add: record_class_def counted_def)

lemma count_future_class: "\<exists>cls. \<forall>k. count_future fut k = record_class cls k"
proof (cases fut)
  case (Inl e)
  then have "\<forall>k. count_future fut k = record_class OtherFailure k"
    by (simp add: count_future_def record_class_def)
  then show ?thesis ..
next
  case (Inr r)
  obtain rc code where r: "r = (rc, code)" by (cases r)
  show ?thesis
  proof (cases "rc = 0 \<and> code \<noteq> None")
    case False
    with Inr r have "\<forall>k. count_future fut k = record_class OtherFailure k"
      by (auto simp: count_future_def record_class_def)
    then show ?thesis ..
  next
    case True
    then obtain c where c: "code = Some c" by auto
    consider "200 \<le> c \<and> c < 400" | "400 \<le> c \<and> c < 500" | "500 \<le> c \<and> c < 600"
      | "c < 200 \<or> 600 \<le> c" by linarith
    then show ?thesis
    proof cases
      case 1
      with Inr r c True have "\<forall>k. count_future fut k = record_class Success k"
        by (simp add: count_future_def record_class_def)
      then show ?thesis ..
    next
      case 2
      with Inr r c True have "\<forall>k. count_future fut k = record_class ClientError k"
        by (simp add: count_future_def record_class_def)
      then show ?thesis ..
    next
      case 3
      with Inr r c True have "\<forall>k. count_future fut k = record_class ServerError k"
        by (simp add: count_future_def record_class_def)
      then show ?thesis ..
    next
      case 4
      with Inr r c True have "\<forall>k. count_future fut k = record_class OtherFailure k"
        by (auto simp: count_future_def record_class_def)
      then show ?thesis ..
    qed
  qed
qed

lemma multi_count_future_class:
  "\<exists>cls. \<forall>k. multi_count_future fut k = record_class cls k"
proof (cases fut)
  case (Inl e)
  then have "\<forall>k. multi_count_future fut k = record_class OtherFailure k"
    by (simp add: multi_count_future_def record_class_def)
  then show ?thesis ..
next
  case (Inr r)
  obtain rc code where r: "r = (rc, code)" by (cases r)
  show ?thesis
  proof (cases code)
    case None
    with Inr r have "\<forall>k. multi_count_future fut k = record_class OtherFailure k"
      by (simp add: multi_count_future_def record_class_def)
    then show ?thesis ..
  next
    case (Some c)
    consider "200 \<le> c \<and> c < 400" | "400 \<le> c \<and> c < 500" | "500 \<le> c \<and> c < 600"
      | "c < 200 \<or> 600 \<le> c" by linarith
    then show ?thesis
    proof cases
      case 1
      with Inr r Some have "\<forall>k. multi_count_future fut k = record_class Success k"
        by (simp add: multi_count_future_def record_class_def)
      then show ?thesis ..
    next
      case 2
      with Inr r Some have "\<forall>k. multi_count_future fut k = record_class ClientError k"
        by (simp add: multi_count_future_def record_class_def)
      then show ?thesis ..
    next
      case 3
      with Inr r Some have "\<forall>k. multi_count_future fut k = record_class ServerError k"
        by (simp add: multi_count_future_def record_class_def)
      then show ?thesis ..
    next
      case 4
      with Inr r Some have "\<forall>k. multi_count_future fut k = record_class OtherFailure k"
        by (auto simp: multi_count_future_def record_class_def)
      then show ?thesis ..
    qed
  qed
qed

lemma counted_count_future: "counted (count_future fut k) = counted k + 1"
  using count_future_class [of fut] by (auto simp: counted_record_class)

lemma counted_multi_count_future: "counted (multi_count_future fut k) = counted k + 1"
  using multi_count_future_class [of fut] by (auto simp: counted_record_class)

text \<open>The order in which the futures are counted does not matter.\<close>

lemma record_class_commute:
  "record_class a (record_class b k) = record_class b (record_class a k)"
  by (cases a; cases b) (simp_all add: record_class_def)

lemma count_future_commute: "count_future f \<circ> count_future g = count_future g \<circ> count_future f"
proof -
  obtain a where a: "\<forall>k. count_future f k = record_class a k"
    using count_future_class [of f] by blast
  obtain b where b: "\<forall>k. count_future g k = record_class b k"
    using count_future_class [of g] by blast
  show ?thesis
    by (rule ext) (simp add: a b record_class_commute [of a b])
qed

lemma multi_count_future_commute:
  "multi_count_future f \<circ> multi_count_future g = multi_count_future g \<circ> multi_count_future f"
proof -
  obtain a where a: "\<forall>k. multi_count_future f k = record_class a k"
    using multi_count_future_class [of f] by blast
  obtain b where b: "\<forall>k. multi_count_future g k = record_class b k"
    using multi_count_future_class [of g] by blast
  show ?thesis
    by (rule ext) (simp add: a b record_class_commute [of a b])
qed

lemma fold_count_future_permuted:
  "mset xs = mset ys \<Longrightarrow> fold count_future xs = fold count_future ys"
  by (rule fold_multiset_equiv) (simp_all add: count_future_commute)

lemma fold_multi_count_future_permuted:
  "mset xs = mset ys \<Longrightarrow> fold multi_count_future xs = fold multi_count_future ys"
  by (rule fold_multiset_equiv) (simp_all add: multi_count_future_commute)

text \<open>One element of a list without repeated keys can be moved to the end.\<close>

lemma mset_move_to_end:
  assumes "distinct (map key xs)" and "x \<in> set xs"
  shows "mset xs = mset (filter (\<lambda>y. key y \<noteq> key x) xs @ [x])"
  using assms
proof (induction xs)
  case Nil
  then show ?case by simp
next
  case (Cons a xs)
  show ?case
  proof (cases "a = x")
    case True
    with Cons.prems have "key x \<notin> key ` set xs" by simp
    then have "\<forall>y \<in> set xs. key y \<noteq> key x" by (metis imageI)
    then have "filter (\<lambda>y. key y \<noteq> key x) xs = xs" by simp
    with True show ?thesis by simp
  next
    case False
    with Cons.prems have x: "x \<in> set xs" and d: "distinct (map key xs)" by auto
    from Cons.prems have "key a \<notin> key ` set xs" by simp
    with x have "key a \<noteq> key x" by (metis imageI)
    with Cons.IH [OF d x] show ?thesis by simp
  qed
qed

lemma counted_fold_count_future:
  "counted (fold count_future futs k) = counted k + length futs"
  by (induction futs arbitrary: k) (simp_all add: counted_count_future)

lemma counted_fold_multi_count_future:
  "counted (fold multi_count_future futs k) = counted k + length futs"
  by (induction futs arbitrary: k) (simp_all add: counted_multi_count_future)

lemma counted_no_counts: "counted no_counts = 0"
  by (simp add: counted_def no_counts_def)

lemma length_as_completed:
  fixes as_completed :: "future list \<Rightarrow> future list"
  assumes "\<forall>fs. mset (as_completed fs) = mset fs"
  shows "length (as_completed fs) = length fs"
proof -
  from assms have "size (mset (as_completed fs)) = size (mset fs)" by simp
  then show ?thesis by simp
qed

lemma as_completed_Nil:
  fixes as_completed :: "future list \<Rightarrow> future list"
  assumes "\<forall>fs. mset (as_completed fs) = mset fs"
  shows "as_completed [] = []"
  using length_as_completed [OF assms, of "[]"] by simp

text \<open>In \<^verbatim>\<open>load_flare.py\<close> a non-zero exit status always lands in the last counter, whatever
  status code was read.\<close>

lemma count_future_nonzero_exit:
  "return_code \<noteq> 0 \<Longrightarrow>
   count_future (Inr (return_code, http_status_code)) k = record_class OtherFailure k"
  by (simp add: count_future_def record_class_def)

text \<open>In \<^verbatim>\<open>multi_load_flare.py\<close> the exit status is looked at only when no status code was
  read.\<close>

lemma multi_count_future_ignores_exit:
  "multi_count_future (Inr (return_code, Some c)) k = multi_count_future (Inr (0, Some c)) k"
  by (simp add: multi_count_future_def)

text \<open>
  Claim C1: a request whose process exit status is non-zero is counted as OtherFailure, even when
  a status code between 200 and 399 was read from its output.

  \<^verbatim>\<open>load_flare.py\<close> does so (\<open>count_future_nonzero_exit\<close>). \<^verbatim>\<open>multi_load_flare.py\<close> does
  not: a run of one request, whose curl prints the status 200 and then exits with 28, ends with
  one success and no failure.
\<close>

theorem multi_nonzero_exit_counted_as_success:
  "multi_load_flare_main words decimal (curl_answers 28 ''200'') rev
     [''curl http://localhost''] 1 2
   = (FinalSummary \<lparr>total_requests = 1, tally = record_class Success no_counts\<rparr>,
      [(1, [''curl'', ''-s'', ''-L'', ''-w'', write_out_format, ''http://localhost''])],
      Some 2)"
  by code_simp

text \<open>
  Claim C2: with exit status 0 and a status code \<open>c\<close>, both scripts classify by the numeric range
  of \<open>c\<close> alone: 200 to 399 is Success, 400 to 499 ClientError, 500 to 599 ServerError and anything
  else OtherFailure; the eight boundary values fall as listed.
\<close>

theorem status_code_bands:
  "count_future (Inr (0, Some c)) k =
     record_class (if 200 \<le> c \<and> c < 400 then Success
                   else if 400 \<le> c \<and> c < 500 then ClientError
                   else if 500 \<le> c \<and> c < 600 then ServerError
                   else OtherFailure) k
   \<and> multi_count_future (Inr (0, Some c)) k =
     record_class (if 200 \<le> c \<and> c < 400 then Success
                   else if 400 \<le> c \<and> c < 500 then ClientError
                   else if 500 \<le> c \<and> c < 600 then ServerError
                   else OtherFailure) k
   \<and> count_future (Inr (0, Some 199)) k = record_class OtherFailure k
   \<and> count_future (Inr (0, Some 200)) k = record_class Success k
   \<and> count_future (Inr (0, Some 399)) k = record_class Success k
   \<and> count_future (Inr (0, Some 400)) k = record_class ClientError k
   \<and> count_future (Inr (0, Some 499)) k = record_class ClientError k
   \<and> count_future (Inr (0, Some 500)) k = record_class ServerError k
   \<and> count_future (Inr (0, Some 599)) k = record_class ServerError k
   \<and> count_future (Inr (0, Some 600)) k = record_class OtherFailure k
   \<and> multi_count_future (Inr (0, Some 199)) k = record_class OtherFailure k
   \<and> multi_count_future (Inr (0, Some 200)) k = record_class Success k
   \<and> multi_count_future (Inr (0, Some 399)) k = record_class Success k
   \<and> multi_count_future (Inr (0, Some 400)) k = record_class ClientError k
   \<and> multi_count_future (Inr (0, Some 499)) k = record_class ClientError k
   \<and> multi_count_future (Inr (0, Some 500)) k = record_class ServerError k
   \<and> multi_count_future (Inr (0, Some 599)) k = record_class ServerError k
   \<and> multi_count_future (Inr (0, Some 600)) k = record_class OtherFailure k"
  by (simp add: count_future_def multi_count_future_def record_class_def)

theorem status_code_bands_witness:
  "count_future (Inr (0, Some 404)) no_counts = record_class ClientError no_counts
   \<and> multi_count_future (Inr (0, Some 404)) no_counts = record_class ClientError no_counts"
  using status_code_bands [of 404 no_counts] by simp

text \<open>
  Claim C7: a request that ends with exit status 0 and no status code is counted as OtherFailure
  by both scripts; none of the three other counters moves.
\<close>

theorem missing_status_code_is_other_failure:
  "count_future (Inr (0, None)) k = record_class OtherFailure k
   \<and> multi_count_future (Inr (0, None)) k = record_class OtherFailure k"
  by (simp add: count_future_def multi_count_future_def record_class_def)

theorem missing_status_code_is_other_failure_witness:
  "count_future (Inr (0, None)) no_counts
     = \<lparr>success_count = 0, client_error_count = 0, server_error_count = 0,
        other_failure_count = 1\<rparr>
   \<and> multi_count_future (Inr (0, None)) no_counts
     = \<lparr>success_count = 0, client_error_count = 0, server_error_count = 0,
        other_failure_count = 1\<rparr>"
  using missing_status_code_is_other_failure [of no_counts]
  by (simp add: record_class_def no_counts_def)

subsection \<open>Scanning a template\<close>

lemma starts_with_dash_flags:
  "starts_with_dash ''-n''" "starts_with_dash ''--requests''"
  "starts_with_dash ''-c''" "starts_with_dash ''--concurrency''"
  by (simp_all add: starts_with_dash_def)

lemma scan_args_cases [case_names n_missing n_invalid n_valid c_last c_value c_flag other]:
  fixes py_int :: "string \<Rightarrow> int option"
  obtains
    "arg = ''-n'' \<or> arg = ''--requests''" "rest = []"
  | v rest' where "arg = ''-n'' \<or> arg = ''--requests''" "rest = v # rest'" "py_int v = None"
  | v rest' c where "arg = ''-n'' \<or> arg = ''--requests''" "rest = v # rest'" "py_int v = Some c"
  | "arg = ''-c'' \<or> arg = ''--concurrency''" "rest = []"
  | v rest' where "arg = ''-c'' \<or> arg = ''--concurrency''" "rest = v # rest'"
      "\<not> starts_with_dash v"
  | v rest' where "arg = ''-c'' \<or> arg = ''--concurrency''" "rest = v # rest'"
      "starts_with_dash v"
  | "arg \<noteq> ''-n''" "arg \<noteq> ''--requests''" "arg \<noteq> ''-c''" "arg \<noteq> ''--concurrency''"
proof (cases "arg = ''-n'' \<or> arg = ''--requests''")
  case True
  show ?thesis
  proof (cases rest)
    case Nil
    with True show ?thesis by (rule that(1))
  next
    case (Cons v rest')
    show ?thesis
    proof (cases "py_int v")
      case None
      with True Cons show ?thesis by (rule that(2))
    next
      case (Some c)
      with True Cons show ?thesis by (rule that(3))
    qed
  qed
next
  case False
  show ?thesis
  proof (cases "arg = ''-c'' \<or> arg = ''--concurrency''")
    case True
    show ?thesis
    proof (cases rest)
      case Nil
      with True show ?thesis by (rule that(4))
    next
      case (Cons v rest')
      show ?thesis
      proof (cases "starts_with_dash v")
        case False
        with True Cons show ?thesis by (rule that(5))
      next
        case dash: True
        with True Cons show ?thesis by (rule that(6))
      qed
    qed
  next
    case no_c: False
    with False show ?thesis by (auto intro: that(7))
  qed
qed

text \<open>One round of the loop consumes one or two tokens.\<close>

lemma scan_args_n_missing:
  "arg = ''-n'' \<or> arg = ''--requests'' \<Longrightarrow>
   scan_args py_int [arg] (n, final, ws) = (n, final, ws @ [MissingValue arg])"
  by auto

lemma scan_args_n_invalid:
  "arg = ''-n'' \<or> arg = ''--requests'' \<Longrightarrow> py_int v = None \<Longrightarrow>
   scan_args py_int (arg # v # rest) (n, final, ws)
   = scan_args py_int (v # rest) (n, final, ws @ [InvalidNumber arg])"
  by auto

lemma scan_args_n_valid:
  "arg = ''-n'' \<or> arg = ''--requests'' \<Longrightarrow> py_int v = Some c \<Longrightarrow>
   scan_args py_int (arg # v # rest) (n, final, ws) = scan_args py_int rest (c, final, ws)"
  by auto

lemma scan_args_c_last:
  "arg = ''-c'' \<or> arg = ''--concurrency'' \<Longrightarrow>
   scan_args py_int [arg] (n, final, ws) = (n, final, ws @ [ConcurrencyIgnored arg])"
  by auto

lemma scan_args_c_value:
  "arg = ''-c'' \<or> arg = ''--concurrency'' \<Longrightarrow> \<not> starts_with_dash v \<Longrightarrow>
   scan_args py_int (arg # v # rest) (n, final, ws)
   = scan_args py_int rest (n, final, ws @ [ConcurrencyIgnored arg])"
  by auto

lemma scan_args_c_flag:
  "arg = ''-c'' \<or> arg = ''--concurrency'' \<Longrightarrow> starts_with_dash v \<Longrightarrow>
   scan_args py_int (arg # v # rest) (n, final, ws)
   = scan_args py_int (v # rest) (n, final, ws @ [ConcurrencyIgnored arg])"
  by auto

lemma scan_args_other:
  "arg \<noteq> ''-n'' \<Longrightarrow> arg \<noteq> ''--requests'' \<Longrightarrow> arg \<noteq> ''-c'' \<Longrightarrow> arg \<noteq> ''--concurrency'' \<Longrightarrow>
   scan_args py_int (arg # rest) (n, final, ws) = scan_args py_int rest (n, final @ [arg], ws)"
  by simp

text \<open>Induction along the rounds of the loop.\<close>

lemma scan_args_rounds
  [case_names finished n_missing n_invalid n_valid c_last c_value c_flag other]:
  fixes py_int :: "string \<Rightarrow> int option"
    and P :: "string list \<Rightarrow> int \<times> string list \<times> warning list \<Rightarrow> bool"
  assumes "\<And>st. P [] st"
    and "\<And>arg n final ws. arg = ''-n'' \<or> arg = ''--requests'' \<Longrightarrow> P [arg] (n, final, ws)"
    and "\<And>arg v rest n final ws.
           arg = ''-n'' \<or> arg = ''--requests'' \<Longrightarrow> py_int v = None \<Longrightarrow>
           P (v # rest) (n, final, ws @ [InvalidNumber arg]) \<Longrightarrow>
           P (arg # v # rest) (n, final, ws)"
    and "\<And>arg v rest c n final ws.
           arg = ''-n'' \<or> arg = ''--requests'' \<Longrightarrow> py_int v = Some c \<Longrightarrow>
           P rest (c, final, ws) \<Longrightarrow>
           P (arg # v # rest) (n, final, ws)"
    and "\<And>arg n final ws. arg = ''-c'' \<or> arg = ''--concurrency'' \<Longrightarrow> P [arg] (n, final, ws)"
    and "\<And>arg v rest n final ws.
           arg = ''-c'' \<or> arg = ''--concurrency'' \<Longrightarrow> \<not> starts_with_dash v \<Longrightarrow>
           P rest (n, final, ws @ [ConcurrencyIgnored arg]) \<Longrightarrow>
           P (arg # v # rest) (n, final, ws)"
    and "\<And>arg v rest n final ws.
           arg = ''-c'' \<or> arg = ''--concurrency'' \<Longrightarrow> starts_with_dash v \<Longrightarrow>
           P (v # rest) (n, final, ws @ [ConcurrencyIgnored arg]) \<Longrightarrow>
           P (arg # v # rest) (n, final, ws)"
    and "\<And>arg rest n final ws.
           arg \<noteq> ''-n'' \<Longrightarrow> arg \<noteq> ''--requests'' \<Longrightarrow> arg \<noteq> ''-c'' \<Longrightarrow>
           arg \<noteq> ''--concurrency'' \<Longrightarrow>
           P rest (n, final @ [arg], ws) \<Longrightarrow>
           P (arg # rest) (n, final, ws)"
  shows "P tokens st"
proof (induction tokens arbitrary: st rule: length_induct)
  case (1 tokens)
  obtain n final ws where st: "st = (n, final, ws)" by (cases st)
  show ?case
  proof (cases tokens)
    case Nil
    with assms(1) show ?thesis by simp
  next
    case (Cons arg rest)
    show ?thesis
    proof (cases rule: scan_args_cases [where arg = arg and rest = rest and py_int = py_int])
      case n_missing
      with Cons st assms(2) show ?thesis by simp
    next
      case (n_invalid v rest')
      with Cons 1 have "P (v # rest') (n, final, ws @ [InvalidNumber arg])" by simp
      with n_invalid have "P (arg # v # rest') (n, final, ws)" by (intro assms(3))
      with n_invalid Cons st show ?thesis by simp
    next
      case (n_valid v rest' c)
      with Cons 1 have "P rest' (c, final, ws)" by simp
      with n_valid have "P (arg # v # rest') (n, final, ws)" by (intro assms(4))
      with n_valid Cons st show ?thesis by simp
    next
      case c_last
      with Cons st assms(5) show ?thesis by simp
    next
      case (c_value v rest')
      with Cons 1 have "P rest' (n, final, ws @ [ConcurrencyIgnored arg])" by simp
      with c_value have "P (arg # v # rest') (n, final, ws)" by (intro assms(6))
      with c_value Cons st show ?thesis by simp
    next
      case (c_flag v rest')
      with Cons 1 have "P (v # rest') (n, final, ws @ [ConcurrencyIgnored arg])" by simp
      with c_flag have "P (arg # v # rest') (n, final, ws)" by (intro assms(7))
      with c_flag Cons st show ?thesis by simp
    next
      case other
      from Cons 1 have "P rest (n, final @ [arg], ws)" by simp
      with other have "P (arg # rest) (n, final, ws)" by (intro assms(8))
      with Cons st show ?thesis by simp
    qed
  qed
qed

declare scan_args.simps(2) [simp del]

text \<open>The scanner only appends to \<^verbatim>\<open>final_curl_args\<close>, and what it appends is a token of the
  template that is none of the four flags.\<close>

lemma scan_args_prefix:
  "prefix (fst (snd st)) (fst (snd (scan_args py_int tokens st)))"
proof (induction tokens st rule: scan_args_rounds [where py_int = py_int])
  case (finished st)
  show ?case by simp
next
  case (n_missing arg n final ws)
  then show ?case by (simp add: scan_args_n_missing)
next
  case (n_invalid arg v rest n final ws)
  then show ?case by (simp add: scan_args_n_invalid)
next
  case (n_valid arg v rest c n final ws)
  then show ?case by (simp add: scan_args_n_valid)
next
  case (c_last arg n final ws)
  then show ?case by (simp add: scan_args_c_last)
next
  case (c_value arg v rest n final ws)
  then show ?case by (simp add: scan_args_c_value)
next
  case (c_flag arg v rest n final ws)
  then show ?case by (simp add: scan_args_c_flag)
next
  case (other arg rest n final ws)
  then have "prefix (final @ [arg]) (fst (snd (scan_args py_int (arg # rest) (n, final, ws))))"
    by (simp add: scan_args_other)
  then show ?case by (simp add: append_prefixD)
qed

lemma scan_args_drops_flags:
  assumes "flag = ''-n'' \<or> flag = ''--requests'' \<or> flag = ''-c'' \<or> flag = ''--concurrency''"
  shows "flag \<notin> set (fst (snd st)) \<longrightarrow> flag \<notin> set (fst (snd (scan_args py_int tokens st)))"
proof (induction tokens st rule: scan_args_rounds [where py_int = py_int])
  case (finished st)
  show ?case by simp
next
  case (n_missing arg n final ws)
  then show ?case by (simp add: scan_args_n_missing)
next
  case (n_invalid arg v rest n final ws)
  then show ?case by (simp add: scan_args_n_invalid)
next
  case (n_valid arg v rest c n final ws)
  then show ?case by (simp add: scan_args_n_valid)
next
  case (c_last arg n final ws)
  then show ?case by (simp add: scan_args_c_last)
next
  case (c_value arg v rest n final ws)
  then show ?case by (simp add: scan_args_c_value)
next
  case (c_flag arg v rest n final ws)
  then show ?case by (simp add: scan_args_c_flag)
next
  case (other arg rest n final ws)
  from other(1-4) assms have "flag \<noteq> arg" by blast
  with other show ?case by (simp add: scan_args_other)
qed

text \<open>Without \<^verbatim>\<open>-n\<close> or \<^verbatim>\<open>--requests\<close> among the tokens the count stays as it was.\<close>

lemma scan_args_count_unchanged:
  "''-n'' \<notin> set tokens \<and> ''--requests'' \<notin> set tokens \<longrightarrow>
   fst (scan_args py_int tokens st) = fst st"
proof (induction tokens st rule: scan_args_rounds [where py_int = py_int])
  case (finished st)
  show ?case by simp
next
  case (n_missing arg n final ws)
  then show ?case by auto
next
  case (n_invalid arg v rest n final ws)
  then show ?case by auto
next
  case (n_valid arg v rest c n final ws)
  then show ?case by auto
next
  case (c_last arg n final ws)
  then show ?case by (simp add: scan_args_c_last)
next
  case (c_value arg v rest n final ws)
  then show ?case by (simp add: scan_args_c_value)
next
  case (c_flag arg v rest n final ws)
  then show ?case by (simp add: scan_args_c_flag)
next
  case (other arg rest n final ws)
  then show ?case by (simp add: scan_args_other)
qed

lemma scan_args_warnings_mono:
  "set (snd (snd st)) \<subseteq> set (snd (snd (scan_args py_int tokens st)))"
proof (induction tokens st rule: scan_args_rounds [where py_int = py_int])
  case (finished st)
  show ?case by simp
next
  case (n_missing arg n final ws)
  then show ?case by (auto simp: scan_args_n_missing)
next
  case (n_invalid arg v rest n final ws)
  then show ?case by (auto simp: scan_args_n_invalid)
next
  case (n_valid arg v rest c n final ws)
  then show ?case by (auto simp: scan_args_n_valid)
next
  case (c_last arg n final ws)
  then show ?case by (auto simp: scan_args_c_last)
next
  case (c_value arg v rest n final ws)
  then show ?case by (auto simp: scan_args_c_value)
next
  case (c_flag arg v rest n final ws)
  then show ?case by (auto simp: scan_args_c_flag)
next
  case (other arg rest n final ws)
  then show ?case by (auto simp: scan_args_other)
qed

text \<open>A token that \<^verbatim>\<open>int\<close> rejects and that starts with a dash is never swallowed as the value
  of the flag before it: the loop always comes to stand on it.\<close>

lemma scan_args_reaches:
  assumes "py_int flag = None" and "starts_with_dash flag"
  shows "\<exists>st'. scan_args py_int (pre @ flag # rest) st = scan_args py_int (flag # rest) st'"
proof (induction pre st rule: scan_args_rounds [where py_int = py_int])
  case (finished st)
  show ?case by (rule exI [of _ st]) simp
next
  case (n_missing arg n final ws)
  with assms(1) have "scan_args py_int ([arg] @ flag # rest) (n, final, ws)
      = scan_args py_int (flag # rest) (n, final, ws @ [InvalidNumber arg])"
    by (simp add: scan_args_n_invalid)
  then show ?case by blast
next
  case (n_invalid arg v rest' n final ws)
  then show ?case by (simp add: scan_args_n_invalid)
next
  case (n_valid arg v rest' c n final ws)
  then show ?case by (simp add: scan_args_n_valid)
next
  case (c_last arg n final ws)
  with assms(2) have "scan_args py_int ([arg] @ flag # rest) (n, final, ws)
      = scan_args py_int (flag # rest) (n, final, ws @ [ConcurrencyIgnored arg])"
    by (simp add: scan_args_c_flag)
  then show ?case by blast
next
  case (c_value arg v rest' n final ws)
  then show ?case by (simp add: scan_args_c_value)
next
  case (c_flag arg v rest' n final ws)
  then show ?case by (simp add: scan_args_c_flag)
next
  case (other arg rest' n final ws)
  then show ?case by (simp add: scan_args_other)
qed

text \<open>Every \<^verbatim>\<open>-c\<close> and \<^verbatim>\<open>--concurrency\<close> among the tokens draws its warning.\<close>

lemma scan_args_concurrency_warning:
  assumes "flag = ''-c'' \<or> flag = ''--concurrency''" and "py_int flag = None"
    and "flag \<in> set tokens"
  shows "ConcurrencyIgnored flag \<in> set (snd (snd (scan_args py_int tokens st)))"
proof -
  from assms(3) obtain pre rest where tokens: "tokens = pre @ flag # rest"
    by (auto dest: split_list)
  from assms(1) have dash: "starts_with_dash flag"
    by (auto simp: starts_with_dash_flags)
  from scan_args_reaches [where py_int = py_int and flag = flag and pre = pre and rest = rest
      and st = st, OF assms(2) dash] tokens
  obtain st' where st': "scan_args py_int tokens st = scan_args py_int (flag # rest) st'"
    by blast
  obtain n final ws where t: "st' = (n, final, ws)" by (cases st')
  have "\<exists>rest'. scan_args py_int (flag # rest) (n, final, ws)
          = scan_args py_int rest' (n, final, ws @ [ConcurrencyIgnored flag])"
  proof (cases rest)
    case Nil
    with assms(1) show ?thesis by (auto simp: scan_args_c_last intro: exI [of _ "[]"])
  next
    case (Cons v rest')
    with assms(1) show ?thesis
      by (cases "starts_with_dash v") (auto simp: scan_args_c_value scan_args_c_flag)
  qed
  then obtain rest' where
    "scan_args py_int tokens st
     = scan_args py_int rest' (n, final, ws @ [ConcurrencyIgnored flag])"
    using st' t by auto
  with scan_args_warnings_mono [of "(n, final, ws @ [ConcurrencyIgnored flag])" py_int rest']
  show ?thesis by auto
qed

text \<open>The last \<^verbatim>\<open>-n\<close> or \<^verbatim>\<open>--requests\<close> with a number behind it sets the count.\<close>

lemma scan_args_embedded_count:
  assumes "flag = ''-n'' \<or> flag = ''--requests''" and "py_int flag = None"
    and "py_int v = Some c" and "''-n'' \<notin> set post" and "''--requests'' \<notin> set post"
  shows "fst (scan_args py_int (pre @ flag # v # post) st) = c"
proof -
  from assms(1) have dash: "starts_with_dash flag"
    by (auto simp: starts_with_dash_flags)
  from scan_args_reaches [where py_int = py_int and flag = flag and pre = pre
      and rest = "v # post" and st = st, OF assms(2) dash]
  obtain st' where
    "scan_args py_int (pre @ flag # v # post) st = scan_args py_int (flag # v # post) st'"
    by blast
  moreover obtain n final ws where "st' = (n, final, ws)" by (cases st')
  ultimately have "scan_args py_int (pre @ flag # v # post) st
                   = scan_args py_int post (c, final, ws)"
    using assms(1,3) by (simp add: scan_args_n_valid)
  with scan_args_count_unchanged [of post py_int "(c, final, ws)"] assms(4,5)
  show ?thesis by simp
qed

text \<open>A template that starts with \<^verbatim>\<open>curl\<close> keeps that word in front, so it is never skipped
  for want of arguments.\<close>

lemma scan_args_curl:
  "\<exists>final. scan_args py_int (''curl'' # rest) (g, [], [])
            = (fst (scan_args py_int rest (g, [''curl''], [])), ''curl'' # final,
               snd (snd (scan_args py_int rest (g, [''curl''], []))))"
proof -
  have step: "scan_args py_int (''curl'' # rest) (g, [], [])
              = scan_args py_int rest (g, [''curl''], [])"
    by (simp add: scan_args_other)
  obtain n f ws where r: "scan_args py_int rest (g, [''curl''], []) = (n, f, ws)"
    by (cases "scan_args py_int rest (g, [''curl''], [])")
  from scan_args_prefix [of "(g, [''curl''], [])" py_int rest] r
  obtain final where f: "f = ''curl'' # final" by (auto simp: prefix_def)
  with step r show ?thesis by simp
qed

lemma template_tasks_curl:
  assumes "shlex_split template = Some (''curl'' # rest)"
  shows "\<exists>final.
           fst (snd (scan_args py_int (''curl'' # rest) (g, [], []))) = ''curl'' # final
           \<and> template_tasks shlex_split py_int g template
             = (replicate (nat (fst (scan_args py_int (''curl'' # rest) (g, [], []))))
                  (''curl'' # final, template),
                snd (snd (scan_args py_int (''curl'' # rest) (g, [], []))))"
proof -
  from scan_args_curl [of py_int rest g] obtain final where
    "scan_args py_int (''curl'' # rest) (g, [], [])
     = (fst (scan_args py_int rest (g, [''curl''], [])), ''curl'' # final,
        snd (snd (scan_args py_int rest (g, [''curl''], []))))"
    by blast
  with assms show ?thesis
    by (simp add: template_tasks_def)
qed

text \<open>Every task starts with \<^verbatim>\<open>curl\<close>.\<close>

lemma template_tasks_start_with_curl:
  assumes "task \<in> set (fst (template_tasks shlex_split py_int g template))"
  shows "\<exists>rest. fst task = ''curl'' # rest"
proof (cases "shlex_split template")
  case None
  with assms show ?thesis by (simp add: template_tasks_def)
next
  case (Some tokens)
  show ?thesis
  proof (cases "tokens = [] \<or> hd tokens \<noteq> ''curl''")
    case True
    with Some assms show ?thesis by (simp add: template_tasks_def)
  next
    case False
    then have "tokens = ''curl'' # tl tokens" by (cases tokens) simp_all
    with Some have lex: "shlex_split template = Some (''curl'' # tl tokens)" by simp
    from template_tasks_curl [where shlex_split = shlex_split and template = template
        and rest = "tl tokens" and py_int = py_int and g = g, OF lex] assms
    show ?thesis by auto
  qed
qed

lemma all_tasks_start_with_curl:
  assumes "task \<in> set (all_tasks shlex_split py_int g curl_commands)"
  shows "\<exists>rest. fst task = ''curl'' # rest"
proof -
  from assms obtain template where
    "task \<in> set (fst (template_tasks shlex_split py_int g template))"
    by (auto simp: all_tasks_def)
  then show ?thesis by (rule template_tasks_start_with_curl)
qed

text \<open>
  Claim C8, for a template of \<^verbatim>\<open>multi_load_flare.py\<close> that starts with \<^verbatim>\<open>curl\<close> (Python's
  \<^verbatim>\<open>int\<close> reads none of the four flag words as a number):
  \<^item> when the last \<^verbatim>\<open>-n\<close> or \<^verbatim>\<open>--requests\<close> of the template is followed by a number \<open>m\<close>, the
    template adds \<open>m\<close> tasks (\<^verbatim>\<open>range(m)\<close>: none for a negative number), whatever the
    global default is;
  \<^item> when the template has no \<^verbatim>\<open>-n\<close> and no \<^verbatim>\<open>--requests\<close>, it adds as many tasks as the global
    default says;
  \<^item> no task carries \<^verbatim>\<open>-c\<close> or \<^verbatim>\<open>--concurrency\<close>, and each such token of the template draws
    the warning that it is ignored;
  \<^item> the pool, when the run gets to build one, has the global concurrency as its size.
\<close>

theorem template_count_and_concurrency:
  assumes "shlex_split template = Some (''curl'' # rest)"
    and "py_int ''-n'' = None" and "py_int ''--requests'' = None"
    and "py_int ''-c'' = None" and "py_int ''--concurrency'' = None"
  shows
    "(rest = pre @ flag # v # post \<and> (flag = ''-n'' \<or> flag = ''--requests'')
        \<and> py_int v = Some number \<and> ''-n'' \<notin> set post \<and> ''--requests'' \<notin> set post
      \<longrightarrow> length (fst (template_tasks shlex_split py_int g template)) = nat number)
     \<and> (''-n'' \<notin> set rest \<and> ''--requests'' \<notin> set rest
      \<longrightarrow> length (fst (template_tasks shlex_split py_int g template)) = nat g)
     \<and> (\<forall>task \<in> set (fst (template_tasks shlex_split py_int g template)).
          ''-c'' \<notin> set (fst task) \<and> ''--concurrency'' \<notin> set (fst task)
          \<and> snd task = template)
     \<and> ((ignored = ''-c'' \<or> ignored = ''--concurrency'') \<and> ignored \<in> set rest
      \<longrightarrow> ConcurrencyIgnored ignored \<in> set (snd (template_tasks shlex_split py_int g template)))
     \<and> snd (snd (multi_load_flare_main shlex_split py_int run as_completed curl_commands g
                   concurrency))
       = (if all_tasks shlex_split py_int g curl_commands = [] \<or> concurrency \<le> 0 then None
          else Some concurrency)"
proof -
  let ?scan = "scan_args py_int (''curl'' # rest) (g, [], [])"
  from template_tasks_curl [where shlex_split = shlex_split and template = template
      and rest = rest and py_int = py_int and g = g, OF assms(1)] obtain final where
    final: "fst (snd ?scan) = ''curl'' # final"
    and tasks: "template_tasks shlex_split py_int g template
                = (replicate (nat (fst ?scan)) (''curl'' # final, template), snd (snd ?scan))"
    by blast
  have embedded:
    "rest = pre @ flag # v # post \<and> (flag = ''-n'' \<or> flag = ''--requests'')
       \<and> py_int v = Some number \<and> ''-n'' \<notin> set post \<and> ''--requests'' \<notin> set post
     \<longrightarrow> length (fst (template_tasks shlex_split py_int g template)) = nat number"
  proof
    assume h: "rest = pre @ flag # v # post \<and> (flag = ''-n'' \<or> flag = ''--requests'')
       \<and> py_int v = Some number \<and> ''-n'' \<notin> set post \<and> ''--requests'' \<notin> set post"
    then have rejected: "py_int flag = None" using assms(2,3) by auto
    from h have "fst (scan_args py_int ((''curl'' # pre) @ flag # v # post) (g, [], [])) = number"
      by (intro scan_args_embedded_count rejected) simp_all
    with h have "fst ?scan = number" by simp
    with tasks show "length (fst (template_tasks shlex_split py_int g template)) = nat number"
      by simp
  qed
  have default:
    "''-n'' \<notin> set rest \<and> ''--requests'' \<notin> set rest
     \<longrightarrow> length (fst (template_tasks shlex_split py_int g template)) = nat g"
  proof
    assume "''-n'' \<notin> set rest \<and> ''--requests'' \<notin> set rest"
    then have "''-n'' \<notin> set (''curl'' # rest) \<and> ''--requests'' \<notin> set (''curl'' # rest)"
      by simp
    with scan_args_count_unchanged [of "''curl'' # rest" py_int "(g, [], [])"]
    have "fst ?scan = g" by simp
    with tasks show "length (fst (template_tasks shlex_split py_int g template)) = nat g"
      by simp
  qed
  have c1: "''-c'' \<notin> set (''curl'' # final)"
    using scan_args_drops_flags [of "''-c''" "(g, [], [])" py_int "''curl'' # rest"] final
    by simp
  have c2: "''--concurrency'' \<notin> set (''curl'' # final)"
    using scan_args_drops_flags [of "''--concurrency''" "(g, [], [])" py_int "''curl'' # rest"]
      final
    by simp
  have dropped:
    "\<forall>task \<in> set (fst (template_tasks shlex_split py_int g template)).
       ''-c'' \<notin> set (fst task) \<and> ''--concurrency'' \<notin> set (fst task) \<and> snd task = template"
  proof
    fix task
    assume "task \<in> set (fst (template_tasks shlex_split py_int g template))"
    with tasks have "task = (''curl'' # final, template)" by simp
    with c1 c2 show
      "''-c'' \<notin> set (fst task) \<and> ''--concurrency'' \<notin> set (fst task) \<and> snd task = template"
      by simp
  qed
  have warned:
    "(ignored = ''-c'' \<or> ignored = ''--concurrency'') \<and> ignored \<in> set rest
     \<longrightarrow> ConcurrencyIgnored ignored
         \<in> set (snd (template_tasks shlex_split py_int g template))"
  proof
    assume h: "(ignored = ''-c'' \<or> ignored = ''--concurrency'') \<and> ignored \<in> set rest"
    then have rejected: "py_int ignored = None" using assms(4,5) by auto
    from h have "ConcurrencyIgnored ignored \<in> set (snd (snd ?scan))"
      by (intro scan_args_concurrency_warning rejected) simp_all
    with tasks show "ConcurrencyIgnored ignored
                     \<in> set (snd (template_tasks shlex_split py_int g template))"
      by simp
  qed
  have pool:
    "snd (snd (multi_load_flare_main shlex_split py_int run as_completed curl_commands g
                 concurrency))
     = (if all_tasks shlex_split py_int g curl_commands = [] \<or> concurrency \<le> 0 then None
        else Some concurrency)"
    by (simp add: multi_load_flare_main_def Let_def)
  from embedded default dropped warned pool show ?thesis by blast
qed

theorem template_count_and_concurrency_witness:
  "words ''curl -n 3 http://localhost -c 8''
     = Some (''curl'' # [''-n'', ''3'', ''http://localhost'', ''-c'', ''8''])
   \<and> decimal ''-n'' = None \<and> decimal ''--requests'' = None
   \<and> decimal ''-c'' = None \<and> decimal ''--concurrency'' = None
   \<and> decimal ''3'' = Some 3
   \<and> length (fst (template_tasks words decimal 1 ''curl -n 3 http://localhost -c 8'')) = 3
   \<and> ConcurrencyIgnored ''-c''
       \<in> set (snd (template_tasks words decimal 1 ''curl -n 3 http://localhost -c 8''))
   \<and> snd (snd (multi_load_flare_main words decimal (curl_answers 0 ''200'') rev
                 [''curl -n 3 http://localhost -c 8''] 1 2))
     = Some 2"
proof -
  have lex: "words ''curl -n 3 http://localhost -c 8''
             = Some (''curl'' # [''-n'', ''3'', ''http://localhost'', ''-c'', ''8''])"
    by code_simp
  have r: "decimal ''-n'' = None" "decimal ''--requests'' = None"
    "decimal ''-c'' = None" "decimal ''--concurrency'' = None"
    by code_simp+
  have three: "decimal ''3'' = Some 3" by code_simp
  have ne: "all_tasks words decimal 1 [''curl -n 3 http://localhost -c 8''] \<noteq> []"
    by code_simp
  from template_count_and_concurrency [where shlex_split = words and py_int = decimal
      and template = "''curl -n 3 http://localhost -c 8''"
      and rest = "[''-n'', ''3'', ''http://localhost'', ''-c'', ''8'']"
      and pre = "[]" and flag = "''-n''" and v = "''3''"
      and post = "[''http://localhost'', ''-c'', ''8'']" and number = 3 and g = 1
      and ignored = "''-c''" and run = "curl_answers 0 ''200''" and as_completed = rev
      and curl_commands = "[''curl -n 3 http://localhost -c 8'']" and concurrency = 2,
      OF lex r] three ne lex r
  show ?thesis by simp
qed

subsection \<open>The command line of one request\<close>

lemma append_rest_eq:
  "append_rest skip_next args modified
   = modified @ without_write_out (if skip_next then drop 1 args else args)"
proof (induction args arbitrary: skip_next modified)
  case Nil
  then show ?case by simp
next
  case (Cons a args)
  then show ?case by simp
qed

lemma without_write_out_no_flag:
  "''-w'' \<notin> set (without_write_out args) \<and> ''--write-out'' \<notin> set (without_write_out args)"
  by (induction args rule: without_write_out.induct) auto

lemma subseq_drop1: "subseq (drop 1 xs) xs"
  by (cases xs) (simp_all add: list_emb_Cons)

lemma without_write_out_subseq: "subseq (without_write_out args) args"
proof (induction args rule: without_write_out.induct)
  case 1
  show ?case by simp
next
  case (2 arg args)
  show ?case
  proof (cases "arg = ''-w'' \<or> arg = ''--write-out''")
    case True
    with 2 have "subseq (without_write_out (drop 1 args)) (drop 1 args)" by simp
    then have "subseq (without_write_out (drop 1 args)) args"
      using subseq_drop1 [of args] by (rule subseq_order.trans)
    then have "subseq (without_write_out (drop 1 args)) (arg # args)"
      by (rule list_emb_Cons)
    with True show ?thesis by simp
  next
    case False
    with 2 have "subseq (without_write_out args) args" by simp
    with False show ?thesis by simp
  qed
qed

lemma without_write_out_id:
  "''-w'' \<notin> set args \<Longrightarrow> ''--write-out'' \<notin> set args \<Longrightarrow> without_write_out args = args"
  by (induction args) auto

lemma count_list_notin: "x \<notin> set xs \<Longrightarrow> count_list xs x = 0"
  by (induction xs) auto

lemma multi_modified_command_args_curl:
  "multi_modified_command_args (''curl'' # rest)
   = Inr ([''curl'']
          @ (if ''-s'' \<in> set rest \<or> ''--silent'' \<in> set rest then [] else [''-s''])
          @ (if ''-L'' \<in> set rest \<or> ''--location'' \<in> set rest then [] else [''-L''])
          @ [''-w'', write_out_format]
          @ without_write_out rest)"
  by (simp add: multi_modified_command_args_def append_rest_eq)

lemma multi_execute_curl_invocations:
  "\<exists>m. snd (multi_execute_curl run (''curl'' # rest) i original) = [(i, m)]"
  by (simp add: multi_execute_curl_def multi_modified_command_args_curl)

text \<open>
  Claim C10: the command that \<^verbatim>\<open>execute_curl\<close> of \<^verbatim>\<open>multi_load_flare.py\<close> hands to
  \<^verbatim>\<open>subprocess.run\<close>, for the argument list \<^verbatim>\<open>curl\<close>, \<open>rest\<close> (\<^verbatim>\<open>main\<close> passes no other kind, see
  \<open>all_tasks_start_with_curl\<close>),
  is \<^verbatim>\<open>curl\<close>, then \<^verbatim>\<open>-s\<close> unless \<open>rest\<close> has \<^verbatim>\<open>-s\<close> or \<^verbatim>\<open>--silent\<close>, then \<^verbatim>\<open>-L\<close> unless \<open>rest\<close> has
  \<^verbatim>\<open>-L\<close> or \<^verbatim>\<open>--location\<close>, then \<^verbatim>\<open>-w\<close> with the format \<^verbatim>\<open>%{http_code}\n\<close>, then \<open>rest\<close> in its
  order with every \<^verbatim>\<open>-w\<close> or \<^verbatim>\<open>--write-out\<close> and the argument after it taken out. So \<^verbatim>\<open>-w\<close>
  occurs exactly once, followed by that format.
\<close>

theorem multi_command_construction:
  "\<exists>m. multi_modified_command_args (''curl'' # rest) = Inr m
       \<and> snd (multi_execute_curl run (''curl'' # rest) i original) = [(i, m)]
       \<and> m = [''curl'']
              @ (if ''-s'' \<in> set rest \<or> ''--silent'' \<in> set rest then [] else [''-s''])
              @ (if ''-L'' \<in> set rest \<or> ''--location'' \<in> set rest then [] else [''-L''])
              @ [''-w'', write_out_format]
              @ without_write_out rest
       \<and> count_list m ''-w'' = 1
       \<and> ''--write-out'' \<notin> set m
       \<and> (''-s'' \<notin> set rest \<and> ''--silent'' \<notin> set rest \<longrightarrow> ''-s'' \<in> set m)
       \<and> (''-L'' \<notin> set rest \<and> ''--location'' \<notin> set rest \<longrightarrow> ''-L'' \<in> set m)
       \<and> subseq (without_write_out rest) rest
       \<and> (''-w'' \<notin> set rest \<and> ''--write-out'' \<notin> set rest \<longrightarrow> without_write_out rest = rest)"
proof -
  let ?m = "[''curl'']
            @ (if ''-s'' \<in> set rest \<or> ''--silent'' \<in> set rest then [] else [''-s''])
            @ (if ''-L'' \<in> set rest \<or> ''--location'' \<in> set rest then [] else [''-L''])
            @ [''-w'', write_out_format]
            @ without_write_out rest"
  have m: "multi_modified_command_args (''curl'' # rest) = Inr ?m"
    by (rule multi_modified_command_args_curl)
  have fmt: "write_out_format \<noteq> ''-w''" "write_out_format \<noteq> ''--write-out''"
    by (simp_all add: write_out_format_def)
  have calls: "snd (multi_execute_curl run (''curl'' # rest) i original) = [(i, ?m)]"
    unfolding multi_execute_curl_def m by simp
  have "count_list (without_write_out rest) ''-w'' = 0"
    using without_write_out_no_flag [of rest] by (simp add: count_list_notin)
  with fmt have one: "count_list ?m ''-w'' = 1" by simp
  have none: "''--write-out'' \<notin> set ?m"
    using without_write_out_no_flag [of rest] fmt by simp
  have s: "''-s'' \<notin> set rest \<and> ''--silent'' \<notin> set rest \<longrightarrow> ''-s'' \<in> set ?m" by simp
  have l: "''-L'' \<notin> set rest \<and> ''--location'' \<notin> set rest \<longrightarrow> ''-L'' \<in> set ?m" by simp
  have keep: "''-w'' \<notin> set rest \<and> ''--write-out'' \<notin> set rest \<longrightarrow> without_write_out rest = rest"
    by (simp add: without_write_out_id)
  from m calls one none s l keep without_write_out_subseq [of rest]
  show ?thesis by blast
qed

theorem multi_command_construction_witness:
  "multi_modified_command_args
     (''curl'' # [''-w'', ''%{size_download}'', ''-s'', ''http://localhost''])
   = Inr [''curl'', ''-L'', ''-w'', write_out_format, ''-s'', ''http://localhost'']
   \<and> snd (multi_execute_curl curl_missing
            (''curl'' # [''-w'', ''%{size_download}'', ''-s'', ''http://localhost'']) 1
            ''curl -w %{size_download} -s http://localhost'')
     = [(1, [''curl'', ''-L'', ''-w'', write_out_format, ''-s'', ''http://localhost''])]"
  using multi_command_construction [of "[''-w'', ''%{size_download}'', ''-s'', ''http://localhost'']"
      curl_missing 1 "''curl -w %{size_download} -s http://localhost''"]
  by auto

subsection \<open>Whole runs\<close>

lemma execute_curl_invocations:
  "snd (execute_curl py_int run (c # rest) i) = [(i, c # ''-w'' # write_out_format # rest)]"
  by (simp add: execute_curl_def Let_def)

lemma length_concat_singletons:
  "(\<And>x. x \<in> set xs \<Longrightarrow> length (f x) = 1) \<Longrightarrow> length (concat (map f xs)) = length xs"
  by (induction xs) simp_all

lemma enumerate_from_member: "(i, x) \<in> set (enumerate_from j xs) \<Longrightarrow> x \<in> set xs"
  by (induction xs arbitrary: j) auto

lemma all_tasks_append:
  "all_tasks shlex_split py_int g (xs @ ys)
   = all_tasks shlex_split py_int g xs @ all_tasks shlex_split py_int g ys"
  by (simp add: all_tasks_def)

lemma all_tasks_Cons:
  "all_tasks shlex_split py_int g (x # xs)
   = fst (template_tasks shlex_split py_int g x) @ all_tasks shlex_split py_int g xs"
  by (simp add: all_tasks_def)

lemma enumerate_from_lower: "(a, x) \<in> set (enumerate_from i xs) \<Longrightarrow> i \<le> a"
  by (induction xs arbitrary: i) force+

lemma distinct_enumerate_from: "distinct (map fst (enumerate_from i xs))"
proof (induction xs arbitrary: i)
  case Nil
  show ?case by simp
next
  case (Cons x xs)
  have "i \<notin> fst ` set (enumerate_from (i + 1) xs)"
  proof
    assume "i \<in> fst ` set (enumerate_from (i + 1) xs)"
    then obtain y where "(i, y) \<in> set (enumerate_from (i + 1) xs)" by force
    then have "i + 1 \<le> i" by (rule enumerate_from_lower)
    then show False by simp
  qed
  with Cons show ?case by simp
qed

text \<open>Counting the futures in any order of completion is counting one chosen future last.\<close>

lemma fold_one_apart:
  assumes "\<And>a b. f a \<circ> f b = f b \<circ> f a" and "mset ys = mset (map F xs)"
    and "distinct (map key xs)" and "x \<in> set xs"
  shows "fold f ys k = f (F x) (fold f (map F (filter (\<lambda>y. key y \<noteq> key x) xs)) k)"
proof -
  from mset_move_to_end [OF assms(3,4)]
  have "mset (map F xs) = mset (map F (filter (\<lambda>y. key y \<noteq> key x) xs @ [x]))"
    by (metis mset_map)
  with assms(2) have "mset ys = mset (map F (filter (\<lambda>y. key y \<noteq> key x) xs) @ [F x])"
    by simp
  with assms(1) have "fold f ys = fold f (map F (filter (\<lambda>y. key y \<noteq> key x) xs) @ [F x])"
    by (intro fold_multiset_equiv) simp_all
  then show ?thesis by simp
qed

text \<open>What both scripts do for every request count and every task list: the counters add up to
  the number of submitted requests, which is also the number of calls of \<^verbatim>\<open>subprocess.run\<close>.
  \<^verbatim>\<open>load_flare.py\<close> prints \<^verbatim>\<open>args.requests\<close> as the total, \<^verbatim>\<open>multi_load_flare.py\<close> the length
  of its task list.\<close>

lemma counters_sum_to_submitted:
  fixes as_completed :: "future list \<Rightarrow> future list"
  assumes "\<forall>fs. mset (as_completed fs) = mset fs" and "0 < concurrency"
  shows
    "(shlex_split curl_command = Some (''curl'' # rest) \<longrightarrow>
        (\<exists>k. fst (load_flare_main shlex_split py_int run as_completed curl_command requests
                     concurrency)
                = FinalSummary \<lparr>total_requests = requests, tally = k\<rparr>
            \<and> counted k = nat requests)
        \<and> length (snd (load_flare_main shlex_split py_int run as_completed curl_command requests
                          concurrency)) = nat requests)
     \<and> (all_tasks shlex_split py_int g curl_commands \<noteq> [] \<longrightarrow>
        (\<exists>k. fst (multi_load_flare_main shlex_split py_int run as_completed curl_commands
                     g concurrency)
                = FinalSummary
                    \<lparr>total_requests = int (length (all_tasks shlex_split py_int g curl_commands)),
                      tally = k\<rparr>
            \<and> counted k = length (all_tasks shlex_split py_int g curl_commands))
        \<and> length (fst (snd (multi_load_flare_main shlex_split py_int run as_completed
                                curl_commands g concurrency)))
          = length (all_tasks shlex_split py_int g curl_commands))"
proof (intro conjI impI)
  assume cmd: "shlex_split curl_command = Some (''curl'' # rest)"
  let ?futs = "map fst (map (execute_curl py_int run (''curl'' # rest)) [1..requests])"
  let ?k = "fold count_future (as_completed ?futs) no_counts"
  from cmd assms(2)
  have "fst (load_flare_main shlex_split py_int run as_completed curl_command requests
               concurrency)
        = FinalSummary \<lparr>total_requests = requests, tally = ?k\<rparr>"
    by (simp add: load_flare_main_def Let_def)
  moreover have "counted ?k = nat requests"
    by (simp add: counted_fold_count_future counted_no_counts length_as_completed [OF assms(1)])
  ultimately show
    "\<exists>k. fst (load_flare_main shlex_split py_int run as_completed curl_command requests
                 concurrency)
            = FinalSummary \<lparr>total_requests = requests, tally = k\<rparr> \<and> counted k = nat requests"
    by blast
  from cmd assms(2)
  have "snd (load_flare_main shlex_split py_int run as_completed curl_command requests
               concurrency)
        = concat (map (\<lambda>i. snd (execute_curl py_int run (''curl'' # rest) i)) [1..requests])"
    by (simp add: load_flare_main_def Let_def comp_def)
  then show
    "length (snd (load_flare_main shlex_split py_int run as_completed curl_command requests
                    concurrency)) = nat requests"
    by (simp add: execute_curl_invocations length_concat_singletons)
next
  let ?tasks = "all_tasks shlex_split py_int g curl_commands"
  assume ne: "?tasks \<noteq> []"
  let ?futs = "map fst (map (\<lambda>(i, (command_args, original_cmd_str)).
                  multi_execute_curl run command_args i original_cmd_str)
                (enumerate_from 1 ?tasks))"
  let ?k = "fold multi_count_future (as_completed ?futs) no_counts"
  have len: "length (enumerate_from i xs) = length xs" for i and xs :: "'a list"
    by (induction xs arbitrary: i) simp_all
  from ne assms(2)
  have "fst (multi_load_flare_main shlex_split py_int run as_completed curl_commands
               g concurrency)
        = FinalSummary \<lparr>total_requests = int (length ?tasks), tally = ?k\<rparr>"
    by (simp add: multi_load_flare_main_def Let_def)
  moreover have "counted ?k = length ?tasks"
    by (simp add: counted_fold_multi_count_future counted_no_counts
        length_as_completed [OF assms(1)] len)
  ultimately show
    "\<exists>k. fst (multi_load_flare_main shlex_split py_int run as_completed curl_commands
                 g concurrency)
            = FinalSummary \<lparr>total_requests = int (length ?tasks), tally = k\<rparr>
        \<and> counted k = length ?tasks"
    by blast
  let ?call = "\<lambda>(i, (command_args, original_cmd_str)).
                 snd (multi_execute_curl run command_args i original_cmd_str)"
  have one: "length (?call x) = 1" if "x \<in> set (enumerate_from 1 ?tasks)" for x
  proof -
    obtain i command_args original where x: "x = (i, (command_args, original))"
      by (cases x) auto
    with that have "(command_args, original) \<in> set ?tasks"
      by (auto dest: enumerate_from_member)
    from all_tasks_start_with_curl [OF this] obtain rest where "command_args = ''curl'' # rest"
      by auto
    with x multi_execute_curl_invocations [of run rest i original] show ?thesis
      by auto
  qed
  from ne assms(2)
  have "fst (snd (multi_load_flare_main shlex_split py_int run as_completed curl_commands
                    g concurrency))
        = concat (map ?call (enumerate_from 1 ?tasks))"
    by (simp add: multi_load_flare_main_def Let_def comp_def split_def)
  then show "length (fst (snd (multi_load_flare_main shlex_split py_int run as_completed
                                curl_commands g concurrency))) = length ?tasks"
    using one by (simp add: length_concat_singletons len)
qed

text \<open>
  Claim C3: at the end of a run over \<open>k\<close> submitted work items, with a valid concurrency limit,
  the total attempted is \<open>k\<close> and the four counters add up to \<open>k\<close>.

  The counters do (\<open>counters_sum_to_submitted\<close>), and so does the total that
  \<^verbatim>\<open>multi_load_flare.py\<close> prints, the length of its task list. \<^verbatim>\<open>load_flare.py\<close> prints the
  number it was asked for instead of the number it submitted: asked for \<open>-3\<close> requests it submits
  none, counts none and reports a total of \<open>-3\<close>.
\<close>

theorem load_flare_total_is_not_the_number_submitted:
  "load_flare_main words decimal (curl_answers 0 ''200'') rev ''curl http://localhost'' (- 3) 2
   = (FinalSummary \<lparr>total_requests = - 3, tally = no_counts\<rparr>, [])"
  by code_simp

text \<open>A status line that \<^verbatim>\<open>int\<close> refuses is an exception inside the \<^verbatim>\<open>try\<close> block of
  \<^verbatim>\<open>load_flare.py\<close>, and is answered like any other.\<close>

lemma execute_curl_int_refuses:
  assumes "run i (c # ''-w'' # write_out_format # rest) = Inr process"
    and "all_digits (last (split_lines (py_strip (stdout process))))"
    and "py_int (last (split_lines (py_strip (stdout process)))) = None"
  shows "fst (execute_curl py_int run (c # rest) i) = Inr (- 1, None)"
proof -
  have "split_lines s \<noteq> []" for s
    by (induction s) (simp_all split: list.splits)
  with assms show ?thesis
    by (simp add: execute_curl_def extract_status_code_def Let_def)
qed

text \<open>
  Claim C4: when \<^verbatim>\<open>subprocess.run\<close> raises for a request, be it \<^verbatim>\<open>FileNotFoundError\<close> or any
  other exception, \<^verbatim>\<open>execute_curl\<close> of either script returns the exit status \<open>-1\<close> with no status
  code, and the run does not crash: it ends with its summary, whose counts are the counts of all
  the other requests with one more OtherFailure, in whatever order the futures complete.
\<close>

theorem executor_error_is_one_other_failure:
  fixes as_completed :: "future list \<Rightarrow> future list"
  assumes "\<forall>fs. mset (as_completed fs) = mset fs" and "0 < concurrency"
  shows
    "(run i (c # ''-w'' # write_out_format # rest) = Inl e \<longrightarrow>
        fst (execute_curl py_int run (c # rest) i) = Inr (- 1, None))
     \<and> (multi_modified_command_args command_args = Inr modified \<and> run i modified = Inl e \<longrightarrow>
        fst (multi_execute_curl run command_args i original) = Inr (- 1, None))
     \<and> count_future (Inr (- 1, None)) k = record_class OtherFailure k
     \<and> multi_count_future (Inr (- 1, None)) k = record_class OtherFailure k
     \<and> (shlex_split curl_command = Some (''curl'' # args) \<and> 1 \<le> j \<and> j \<le> requests
          \<and> run j (''curl'' # ''-w'' # write_out_format # args) = Inl e'
        \<longrightarrow> fst (load_flare_main shlex_split py_int run as_completed curl_command requests
                   concurrency)
            = FinalSummary
                \<lparr>total_requests = requests,
                  tally = record_class OtherFailure
                    (fold count_future
                       (map (\<lambda>i. fst (execute_curl py_int run (''curl'' # args) i))
                          (filter (\<lambda>i. i \<noteq> j) [1..requests]))
                       no_counts)\<rparr>)
     \<and> ((j', task_args, task_original)
            \<in> set (enumerate_from 1 (all_tasks shlex_split py_int g curl_commands))
          \<and> multi_modified_command_args task_args = Inr m \<and> run j' m = Inl e''
        \<longrightarrow> fst (multi_load_flare_main shlex_split py_int run as_completed curl_commands g
                   concurrency)
            = FinalSummary
                \<lparr>total_requests = int (length (all_tasks shlex_split py_int g curl_commands)),
                  tally = record_class OtherFailure
                    (fold multi_count_future
                       (map (\<lambda>(i, command_args, original_cmd_str).
                               fst (multi_execute_curl run command_args i original_cmd_str))
                          (filter (\<lambda>x. fst x \<noteq> j')
                             (enumerate_from 1 (all_tasks shlex_split py_int g curl_commands))))
                       no_counts)\<rparr>)"
proof (intro conjI impI)
  assume "run i (c # ''-w'' # write_out_format # rest) = Inl e"
  then show "fst (execute_curl py_int run (c # rest) i) = Inr (- 1, None)"
    by (cases e) (simp_all add: execute_curl_def Let_def)
next
  assume "multi_modified_command_args command_args = Inr modified \<and> run i modified = Inl e"
  then show "fst (multi_execute_curl run command_args i original) = Inr (- 1, None)"
    by (cases e) (simp_all add: multi_execute_curl_def)
next
  show "count_future (Inr (- 1, None)) k = record_class OtherFailure k"
    by (simp add: count_future_def record_class_def)
next
  show "multi_count_future (Inr (- 1, None)) k = record_class OtherFailure k"
    by (simp add: multi_count_future_def record_class_def)
next
  assume h: "shlex_split curl_command = Some (''curl'' # args) \<and> 1 \<le> j \<and> j \<le> requests
             \<and> run j (''curl'' # ''-w'' # write_out_format # args) = Inl e'"
  let ?F = "\<lambda>i. fst (execute_curl py_int run (''curl'' # args) i)"
  from h have raised: "?F j = Inr (- 1, None)"
    by (cases e') (simp_all add: execute_curl_def Let_def)
  from h have j: "j \<in> set [1..requests]" by simp
  have d: "distinct (map (\<lambda>i. i) [1..requests])" by simp
  from assms(1) have p: "mset (as_completed (map ?F [1..requests])) = mset (map ?F [1..requests])"
    by blast
  have "fold count_future (as_completed (map ?F [1..requests])) no_counts
        = count_future (?F j)
            (fold count_future (map ?F (filter (\<lambda>i. i \<noteq> j) [1..requests])) no_counts)"
    by (rule fold_one_apart [OF count_future_commute p d j])
  also have "\<dots> = record_class OtherFailure
            (fold count_future (map ?F (filter (\<lambda>i. i \<noteq> j) [1..requests])) no_counts)"
    unfolding raised by (simp add: count_future_def record_class_def)
  finally have "fold count_future (as_completed (map ?F [1..requests])) no_counts
        = record_class OtherFailure
            (fold count_future (map ?F (filter (\<lambda>i. i \<noteq> j) [1..requests])) no_counts)" .
  with h assms(2) show
    "fst (load_flare_main shlex_split py_int run as_completed curl_command requests concurrency)
     = FinalSummary
         \<lparr>total_requests = requests,
           tally = record_class OtherFailure
             (fold count_future (map ?F (filter (\<lambda>i. i \<noteq> j) [1..requests])) no_counts)\<rparr>"
    by (simp add: load_flare_main_def Let_def comp_def)
next
  let ?tasks = "all_tasks shlex_split py_int g curl_commands"
  assume h: "(j', task_args, task_original) \<in> set (enumerate_from 1 ?tasks)
             \<and> multi_modified_command_args task_args = Inr m \<and> run j' m = Inl e''"
  let ?F = "\<lambda>(i, command_args, original_cmd_str).
              fst (multi_execute_curl run command_args i original_cmd_str)"
  from h have raised: "?F (j', task_args, task_original) = Inr (- 1, None)"
    by (cases e'') (simp_all add: multi_execute_curl_def)
  from h have x: "(j', task_args, task_original) \<in> set (enumerate_from 1 ?tasks)" by simp
  then have ne: "?tasks \<noteq> []" by auto
  from assms(1)
  have p: "mset (as_completed (map ?F (enumerate_from 1 ?tasks)))
           = mset (map ?F (enumerate_from 1 ?tasks))"
    by blast
  have "fold multi_count_future (as_completed (map ?F (enumerate_from 1 ?tasks))) no_counts
        = multi_count_future (?F (j', task_args, task_original))
            (fold multi_count_future
               (map ?F (filter (\<lambda>y. fst y \<noteq> fst (j', task_args, task_original))
                          (enumerate_from 1 ?tasks)))
               no_counts)"
    by (rule fold_one_apart [OF multi_count_future_commute p distinct_enumerate_from x])
  also have "\<dots> = record_class OtherFailure
            (fold multi_count_future
               (map ?F (filter (\<lambda>x. fst x \<noteq> j') (enumerate_from 1 ?tasks))) no_counts)"
    unfolding raised by (simp add: multi_count_future_def record_class_def)
  finally have "fold multi_count_future (as_completed (map ?F (enumerate_from 1 ?tasks)))
                  no_counts
        = record_class OtherFailure
            (fold multi_count_future
               (map ?F (filter (\<lambda>x. fst x \<noteq> j') (enumerate_from 1 ?tasks))) no_counts)" .
  with ne assms(2) show
    "fst (multi_load_flare_main shlex_split py_int run as_completed curl_commands g concurrency)
     = FinalSummary
         \<lparr>total_requests = int (length ?tasks),
           tally = record_class OtherFailure
             (fold multi_count_future
                (map ?F (filter (\<lambda>x. fst x \<noteq> j') (enumerate_from 1 ?tasks))) no_counts)\<rparr>"
    by (simp add: multi_load_flare_main_def Let_def comp_def split_def)
qed

text \<open>A run of three requests in which the first finds no curl and the two others are answered
  with the status 200: two successes and one other failure.\<close>

theorem executor_error_is_one_other_failure_witness:
  "(\<forall>fs :: future list. mset (rev fs) = mset fs) \<and> (0 :: int) < 2
   \<and> words ''curl http://localhost'' = Some (''curl'' # [''http://localhost''])
   \<and> curl_missing_at_first 1 (''curl'' # ''-w'' # write_out_format # [''http://localhost''])
     = Inl FileNotFoundError
   \<and> fst (execute_curl decimal curl_missing_at_first (''curl'' # [''http://localhost'']) 1)
     = Inr (- 1, None)
   \<and> fst (load_flare_main words decimal curl_missing_at_first rev ''curl http://localhost'' 3 2)
     = FinalSummary
         \<lparr>total_requests = 3,
           tally = \<lparr>success_count = 2, client_error_count = 0, server_error_count = 0,
                    other_failure_count = 1\<rparr>\<rparr>
   \<and> (1, [''curl'', ''http://localhost''], ''curl -n 3 http://localhost'')
       \<in> set (enumerate_from 1 (all_tasks words decimal 1 [''curl -n 3 http://localhost'']))
   \<and> multi_modified_command_args [''curl'', ''http://localhost'']
     = Inr [''curl'', ''-s'', ''-L'', ''-w'', write_out_format, ''http://localhost'']
   \<and> fst (multi_execute_curl curl_missing_at_first [''curl'', ''http://localhost''] 1
            ''curl -n 3 http://localhost'') = Inr (- 1, None)
   \<and> fst (multi_load_flare_main words decimal curl_missing_at_first rev
            [''curl -n 3 http://localhost''] 1 2)
     = FinalSummary
         \<lparr>total_requests = 3,
           tally = \<lparr>success_count = 2, client_error_count = 0, server_error_count = 0,
                    other_failure_count = 1\<rparr>\<rparr>"
proof -
  have perm: "\<forall>fs :: future list. mset (rev fs) = mset fs" by simp
  have pos: "(0 :: int) < 2" by simp
  have cmd: "words ''curl http://localhost'' = Some (''curl'' # [''http://localhost''])"
    by code_simp
  have a: "curl_missing_at_first 1 (''curl'' # ''-w'' # write_out_format # [''http://localhost''])
           = Inl FileNotFoundError"
    by (simp add: curl_missing_at_first_def)
  have t: "(1, [''curl'', ''http://localhost''], ''curl -n 3 http://localhost'')
           \<in> set (enumerate_from 1 (all_tasks words decimal 1 [''curl -n 3 http://localhost'']))"
    by code_simp
  have b: "multi_modified_command_args [''curl'', ''http://localhost'']
           = Inr [''curl'', ''-s'', ''-L'', ''-w'', write_out_format, ''http://localhost'']"
    by (simp add: multi_modified_command_args_def)
  have c: "curl_missing_at_first 1 [''curl'', ''-s'', ''-L'', ''-w'', write_out_format,
             ''http://localhost''] = Inl FileNotFoundError"
    by (simp add: curl_missing_at_first_def)
  have others:
    "record_class OtherFailure
       (fold count_future
          (map (\<lambda>i. fst (execute_curl decimal curl_missing_at_first
                          (''curl'' # [''http://localhost'']) i))
             (filter (\<lambda>i. i \<noteq> 1) [1..3]))
          no_counts)
     = \<lparr>success_count = 2, client_error_count = 0, server_error_count = 0,
        other_failure_count = 1\<rparr>"
    by code_simp
  have multi_others:
    "record_class OtherFailure
       (fold multi_count_future
          (map (\<lambda>(i, command_args, original_cmd_str).
                  fst (multi_execute_curl curl_missing_at_first command_args i
                         original_cmd_str))
             (filter (\<lambda>x. fst x \<noteq> 1)
                (enumerate_from 1
                   (all_tasks words decimal 1 [''curl -n 3 http://localhost'']))))
          no_counts)
     = \<lparr>success_count = 2, client_error_count = 0, server_error_count = 0,
        other_failure_count = 1\<rparr>"
    by code_simp
  have len: "int (length (all_tasks words decimal 1 [''curl -n 3 http://localhost''])) = 3"
    by code_simp
  from executor_error_is_one_other_failure [where as_completed = rev and concurrency = 2
      and run = curl_missing_at_first and i = 1 and c = "''curl''"
      and rest = "[''http://localhost'']" and e = FileNotFoundError and py_int = decimal
      and command_args = "[''curl'', ''http://localhost'']"
      and modified = "[''curl'', ''-s'', ''-L'', ''-w'', write_out_format, ''http://localhost'']"
      and original = "''curl -n 3 http://localhost''" and shlex_split = words
      and curl_command = "''curl http://localhost''" and args = "[''http://localhost'']"
      and j = 1 and requests = 3 and e' = FileNotFoundError and j' = 1
      and task_args = "[''curl'', ''http://localhost'']"
      and task_original = "''curl -n 3 http://localhost''" and g = 1
      and curl_commands = "[''curl -n 3 http://localhost'']"
      and m = "[''curl'', ''-s'', ''-L'', ''-w'', write_out_format, ''http://localhost'']"
      and e'' = FileNotFoundError, OF perm pos]
    perm pos cmd a t b c
  show ?thesis
    by (simp add: others multi_others len)
qed

text \<open>
  Claim C5: with a concurrency limit of zero or less no request is ever submitted or executed
  and the run ends on a complaint about its configuration, never on a summary. Once the
  templates have yielded work (a command that starts with \<^verbatim>\<open>curl\<close>, a task list that is not
  empty) the complaint is the \<^verbatim>\<open>ValueError\<close> of the pool constructor; before that point it is
  the script's own refusal of the templates.
\<close>

theorem nonpositive_concurrency_runs_nothing:
  assumes "concurrency \<le> 0"
  shows
    "snd (load_flare_main shlex_split py_int run as_completed curl_command requests concurrency) = []
     \<and> configuration_failure
         (fst (load_flare_main shlex_split py_int run as_completed curl_command requests concurrency))
     \<and> (shlex_split curl_command = Some (''curl'' # rest) \<longrightarrow>
          fst (load_flare_main shlex_split py_int run as_completed curl_command requests concurrency)
          = Uncaught pool_error)
     \<and> snd (multi_load_flare_main shlex_split py_int run as_completed curl_commands
              requests concurrency) = ([], None)
     \<and> configuration_failure
         (fst (multi_load_flare_main shlex_split py_int run as_completed curl_commands
                 requests concurrency))
     \<and> (all_tasks shlex_split py_int requests curl_commands \<noteq> [] \<longrightarrow>
          fst (multi_load_flare_main shlex_split py_int run as_completed curl_commands
                 requests concurrency)
          = Uncaught pool_error)"
proof -
  have single:
    "load_flare_main shlex_split py_int run as_completed curl_command requests concurrency
     = (case shlex_split curl_command of
          None \<Rightarrow> (EarlyExit ErrorParsingCommand, [])
        | Some command_args \<Rightarrow>
            if command_args = [] \<or> hd command_args \<noteq> ''curl''
            then (EarlyExit MustStartWithCurl, [])
            else (Uncaught pool_error, []))"
    using assms by (simp add: load_flare_main_def split: option.splits)
  have multi:
    "multi_load_flare_main shlex_split py_int run as_completed curl_commands requests concurrency
     = (if all_tasks shlex_split py_int requests curl_commands = []
        then (EarlyExit NoValidCommands, [], None)
        else (Uncaught pool_error, [], None))"
    using assms by (simp add: multi_load_flare_main_def Let_def)
  show ?thesis
    unfolding single multi
    by (simp add: configuration_failure_def pool_error_def split: option.splits)
qed

theorem nonpositive_concurrency_runs_nothing_witness:
  "(0 :: int) \<le> 0
   \<and> load_flare_main words decimal (curl_answers 0 ''200'') rev ''curl http://localhost'' 5 0
     = (Uncaught pool_error, [])
   \<and> multi_load_flare_main words decimal (curl_answers 0 ''200'') rev
       [''curl http://localhost''] 5 0
     = (Uncaught pool_error, [], None)"
proof -
  have le: "(0 :: int) \<le> 0" by simp
  have cmd: "words ''curl http://localhost'' = Some (''curl'' # [''http://localhost''])"
    by code_simp
  have ne: "all_tasks words decimal 5 [''curl http://localhost''] \<noteq> []"
    by code_simp
  from nonpositive_concurrency_runs_nothing [where concurrency = 0 and shlex_split = words
      and py_int = decimal and run = "curl_answers 0 ''200''" and as_completed = rev
      and curl_command = "''curl http://localhost''" and requests = 5
      and rest = "[''http://localhost'']" and curl_commands = "[''curl http://localhost'']",
      OF le] cmd ne
  have "snd (load_flare_main words decimal (curl_answers 0 ''200'') rev ''curl http://localhost'' 5 0)
          = []"
    and "fst (load_flare_main words decimal (curl_answers 0 ''200'') rev ''curl http://localhost'' 5 0)
          = Uncaught pool_error"
    and "snd (multi_load_flare_main words decimal (curl_answers 0 ''200'') rev
               [''curl http://localhost''] 5 0) = ([], None)"
    and "fst (multi_load_flare_main words decimal (curl_answers 0 ''200'') rev
               [''curl http://localhost''] 5 0) = Uncaught pool_error"
    by blast+
  then show ?thesis
    using le by (simp add: prod_eq_iff)
qed

text \<open>
  Claim C6, as written: a run whose list of work items is empty returns a report with all four
  counts zero, and never calls the executor. \<^verbatim>\<open>multi_load_flare.py\<close> does not: on an empty task
  list it prints that there is nothing valid to execute and returns before any counter exists.
\<close>

theorem multi_empty_task_list_gives_no_summary:
  "all_tasks words decimal 0 [''curl http://localhost''] = []
   \<and> multi_load_flare_main words decimal (curl_answers 0 ''200'') rev
       [''curl http://localhost''] 0 4
     = (EarlyExit NoValidCommands, [], None)"
  by code_simp

text \<open>
  Claim C6, amended: a run whose list of work items is empty never calls the executor. In
  \<^verbatim>\<open>load_flare.py\<close> (command starting with \<^verbatim>\<open>curl\<close>, concurrency above zero, request count zero
  or less) the summary shows all four counts at zero. In \<^verbatim>\<open>multi_load_flare.py\<close> an empty task
  list ends the run with the message that no valid command is left, without a summary and
  without a pool.
\<close>

theorem empty_work_calls_no_executor:
  fixes as_completed :: "future list \<Rightarrow> future list"
  assumes "\<forall>fs. mset (as_completed fs) = mset fs"
  shows
    "(shlex_split curl_command = Some (''curl'' # rest) \<and> 0 < concurrency \<and> requests \<le> 0
        \<longrightarrow> load_flare_main shlex_split py_int run as_completed curl_command requests concurrency
            = (FinalSummary \<lparr>total_requests = requests, tally = no_counts\<rparr>, []))
     \<and> (all_tasks shlex_split py_int requests' curl_commands = []
        \<longrightarrow> multi_load_flare_main shlex_split py_int run as_completed curl_commands
              requests' concurrency'
            = (EarlyExit NoValidCommands, [], None))"
proof (intro conjI impI)
  assume h: "shlex_split curl_command = Some (''curl'' # rest) \<and> 0 < concurrency
             \<and> requests \<le> 0"
  then have "[1..requests] = []" by simp
  with h show "load_flare_main shlex_split py_int run as_completed curl_command requests concurrency
               = (FinalSummary \<lparr>total_requests = requests, tally = no_counts\<rparr>, [])"
    by (simp add: load_flare_main_def as_completed_Nil [OF assms])
next
  assume "all_tasks shlex_split py_int requests' curl_commands = []"
  then show "multi_load_flare_main shlex_split py_int run as_completed curl_commands
               requests' concurrency'
             = (EarlyExit NoValidCommands, [], None)"
    by (simp add: multi_load_flare_main_def)
qed

theorem empty_work_calls_no_executor_witness:
  "(\<forall>fs :: future list. mset (rev fs) = mset fs)
   \<and> words ''curl http://localhost'' = Some (''curl'' # [''http://localhost''])
   \<and> (0 :: int) < 4 \<and> (0 :: int) \<le> 0
   \<and> load_flare_main words decimal (curl_answers 0 ''200'') rev ''curl http://localhost'' 0 4
     = (FinalSummary \<lparr>total_requests = 0, tally = no_counts\<rparr>, [])
   \<and> all_tasks words decimal 3 [''wget http://localhost''] = []
   \<and> multi_load_flare_main words decimal (curl_answers 0 ''200'') rev
       [''wget http://localhost''] 3 4
     = (EarlyExit NoValidCommands, [], None)"
proof -
  have perm: "\<forall>fs :: future list. mset (rev fs) = mset fs" by simp
  have cmd: "words ''curl http://localhost'' = Some (''curl'' # [''http://localhost''])"
    by code_simp
  have empty: "all_tasks words decimal 3 [''wget http://localhost''] = []"
    by code_simp
  from empty_work_calls_no_executor [where as_completed = rev and shlex_split = words
      and py_int = decimal and curl_command = "''curl http://localhost''"
      and rest = "[''http://localhost'']" and concurrency = 4 and requests = 0
      and run = "curl_answers 0 ''200''" and requests' = 3
      and curl_commands = "[''wget http://localhost'']" and concurrency' = 4, OF perm]
    perm cmd empty
  show ?thesis by simp
qed

text \<open>
  Claim C9: a command template whose first token is not \<^verbatim>\<open>curl\<close> (or that has no token at
  all) is refused before any of its requests is dispatched. \<^verbatim>\<open>load_flare.py\<close> prints the error
  and executes nothing. \<^verbatim>\<open>multi_load_flare.py\<close> prints a warning, adds no task for that template
  and goes on: the task list, and with it the whole run, is the one of the remaining templates.
\<close>

theorem template_not_curl_is_refused:
  assumes "shlex_split template = Some tokens" and "tokens = [] \<or> hd tokens \<noteq> ''curl''"
  shows
    "load_flare_main shlex_split py_int run as_completed template requests concurrency
       = (EarlyExit MustStartWithCurl, [])
     \<and> template_tasks shlex_split py_int requests template = ([], [SkippedNotCurl])
     \<and> all_tasks shlex_split py_int requests (before @ template # after)
       = all_tasks shlex_split py_int requests before
         @ all_tasks shlex_split py_int requests after
     \<and> multi_load_flare_main shlex_split py_int run as_completed' (before @ template # after)
         requests concurrency
       = multi_load_flare_main shlex_split py_int run as_completed' (before @ after)
           requests concurrency"
proof -
  from assms have single:
    "load_flare_main shlex_split py_int run as_completed template requests concurrency
     = (EarlyExit MustStartWithCurl, [])"
    by (auto simp: load_flare_main_def)
  from assms have skip:
    "template_tasks shlex_split py_int requests template = ([], [SkippedNotCurl])"
    by (auto simp: template_tasks_def)
  then have tasks:
    "all_tasks shlex_split py_int requests (before @ template # after)
     = all_tasks shlex_split py_int requests before
       @ all_tasks shlex_split py_int requests after"
    by (simp add: all_tasks_append all_tasks_Cons)
  then have
    "all_tasks shlex_split py_int requests (before @ template # after)
     = all_tasks shlex_split py_int requests (before @ after)"
    by (simp add: all_tasks_append)
  then have multi:
    "multi_load_flare_main shlex_split py_int run as_completed' (before @ template # after)
       requests concurrency
     = multi_load_flare_main shlex_split py_int run as_completed' (before @ after)
         requests concurrency"
    by (simp add: multi_load_flare_main_def)
  from single skip tasks multi show ?thesis by simp
qed

theorem template_not_curl_is_refused_witness:
  "words ''wget http://localhost'' = Some [''wget'', ''http://localhost'']
   \<and> ([''wget'', ''http://localhost''] = [] \<or> hd [''wget'', ''http://localhost''] \<noteq> ''curl'')
   \<and> load_flare_main words decimal (curl_answers 0 ''200'') rev ''wget http://localhost'' 3 2
     = (EarlyExit MustStartWithCurl, [])
   \<and> template_tasks words decimal 3 ''wget http://localhost'' = ([], [SkippedNotCurl])
   \<and> multi_load_flare_main words decimal (curl_answers 0 ''200'') rev
       ([''curl http://a''] @ ''wget http://localhost'' # [''curl -n 2 http://b'']) 3 2
     = multi_load_flare_main words decimal (curl_answers 0 ''200'') rev
       ([''curl http://a''] @ [''curl -n 2 http://b'']) 3 2"
proof -
  have w: "words ''wget http://localhost'' = Some [''wget'', ''http://localhost'']"
    by code_simp
  have n: "[''wget'', ''http://localhost''] = [] \<or> hd [''wget'', ''http://localhost''] \<noteq> ''curl''"
    by simp
  from template_not_curl_is_refused [where shlex_split = words
      and template = "''wget http://localhost''" and tokens = "[''wget'', ''http://localhost'']"
      and py_int = decimal and run = "curl_answers 0 ''200''" and as_completed = rev
      and requests = 3 and concurrency = 2 and before = "[''curl http://a'']"
      and after = "[''curl -n 2 http://b'']" and as_completed' = rev, OF w n] w n
  show ?thesis by simp
qed

end
